theory Spec2Isabelle
  imports Main "HOL-Library.Multiset" "HOL-Library.AList" "HOL-Library.Char_ord"
    "HOL-Library.List_Lexorder" "HOL-Library.Product_Lexorder"
begin

section \<open>Errors\<close>

text \<open>
  The exceptions the modelled scripts can raise.  \<open>IntegrityError\<close> and
  \<open>OperationalError\<close> are the two \<open>sqlite3\<close> exceptions (a violated constraint, a
  statement the database cannot run); \<open>ZeroDivisionError\<close> is Python's.
\<close>

datatype error =
    ZeroDivisionError
  | IntegrityError string
  | OperationalError string

section \<open>The entity partitioner (\<open>scripts/divide_entities.py\<close>)\<close>

subsection \<open>The library's generator and \<open>random.shuffle\<close>\<close>

text \<open>
  \<open>divide_entities\<close> uses the module-level generator of Python's \<open>random\<close>: a global
  state that \<open>random.seed\<close> overwrites and every draw advances.  The generator is library
  code, so it is a parameter here: \<open>sd\<close> maps a seed to a generator state, and
  \<open>rb n g\<close> is the library's \<open>_randbelow(n)\<close> in state \<open>g\<close>, giving the draw and the
  next state.  \<open>rng_ok\<close> is the library's contract for the draw: a value below \<open>n\<close>.

  \<open>random.shuffle(x)\<close> is
  \<^verbatim>\<open>for i in reversed(range(1, len(x))): j = randbelow(i + 1); x[i], x[j] = x[j], x[i]\<close>.
\<close>

definition rng_ok :: "(nat \<Rightarrow> 'g \<Rightarrow> nat \<times> 'g) \<Rightarrow> bool" where
  "rng_ok rb = (\<forall>n g. 0 < n \<longrightarrow> fst (rb n g) < n)"

fun shuffle_from :: "(nat \<Rightarrow> 'g \<Rightarrow> nat \<times> 'g) \<Rightarrow> nat \<Rightarrow> 'a list \<Rightarrow> 'g \<Rightarrow> 'a list \<times> 'g" where
  "shuffle_from rb 0 xs g = (xs, g)"
| "shuffle_from rb (Suc k) xs g =
     (let i = Suc k;
          (j, g') = rb (i + 1) g
      in shuffle_from rb k (xs[i := xs ! j, j := xs ! i]) g')"

definition random_shuffle :: "(nat \<Rightarrow> 'g \<Rightarrow> nat \<times> 'g) \<Rightarrow> 'a list \<Rightarrow> 'g \<Rightarrow> 'a list \<times> 'g" where
  "random_shuffle rb xs g = shuffle_from rb (length xs - 1) xs g"

subsection \<open>Python's \<open>range\<close> and slicing\<close>

definition py_range :: "int \<Rightarrow> int list" where
  "py_range n = map int [0..<nat n]"

text \<open>\<open>xs[s:e]\<close>: a negative index counts from the end, and both ends are clamped.\<close>

definition py_slice :: "'a list \<Rightarrow> int \<Rightarrow> int \<Rightarrow> 'a list" where
  "py_slice xs s e =
     (let n = int (length xs);
          s' = (if s < 0 then max 0 (n + s) else min s n);
          e' = (if e < 0 then max 0 (n + e) else min e n)
      in take (nat (e' - s')) (drop (nat s') xs))"

subsection \<open>\<open>divide_entities\<close>\<close>

text \<open>
  One pass of the loop body: the loop state is \<open>(start_idx, groups)\<close>.
\<close>

definition divide_step :: "'a list \<Rightarrow> int \<Rightarrow> int \<Rightarrow> int \<Rightarrow> int \<times> 'a list list \<Rightarrow> int \<times> 'a list list" where
  "divide_step shuffled base_size remainder i st =
     (let start_idx = fst st;
          groups = snd st;
          group_size = base_size + (if i < remainder then 1 else 0);
          end_idx = start_idx + group_size;
          group = py_slice shuffled start_idx end_idx
      in (end_idx, groups @ [group]))"

text \<open>
  The function takes the generator state it finds and returns the one it leaves, next to
  its result.  The division by \<open>num_groups\<close> comes after the shuffle, so a
  \<open>ZeroDivisionError\<close> leaves the generator advanced.  Python's \<open>//\<close> and \<open>%\<close> round
  towards minus infinity, as \<open>div\<close> and \<open>mod\<close> on \<open>int\<close> do.
\<close>

definition divide_entities ::
  "(nat \<Rightarrow> 'g \<Rightarrow> nat \<times> 'g) \<Rightarrow> (int \<Rightarrow> 'g) \<Rightarrow> 'a list \<Rightarrow> int \<Rightarrow> 'g \<Rightarrow> (error + 'a list list) \<times> 'g" where
  "divide_entities rb sd entities num_groups g0 =
     (let g1 = sd 42;
          (shuffled, g2) = random_shuffle rb entities g1;
          total = int (length shuffled)
      in if num_groups = 0 then (Inl ZeroDivisionError, g2)
         else
           (let base_size = total div num_groups;
                remainder = total mod num_groups;
                groups = snd (fold (divide_step shuffled base_size remainder)
                                   (py_range num_groups) (0, []))
            in (Inr groups, g2)))"

subsection \<open>The loop in closed form\<close>

text \<open>
  Auxiliary functions for the proofs: the size the loop gives group \<open>i\<close>, the index
  at which group \<open>i\<close> starts, and the list of groups written as slices of the
  shuffled list.  Lemma \<open>divide_entities_groups\<close> below proves that the loop computes
  \<open>groups_of\<close>.
\<close>

definition group_size_of :: "int \<Rightarrow> int \<Rightarrow> nat \<Rightarrow> int" where
  "group_size_of b r i = b + (if int i < r then 1 else 0)"

definition offset_of :: "int \<Rightarrow> int \<Rightarrow> nat \<Rightarrow> int" where
  "offset_of b r i = int i * b + min (int i) r"

definition groups_of :: "'a list \<Rightarrow> int \<Rightarrow> 'a list list" where
  "groups_of sh n =
     (let b = int (length sh) div n; r = int (length sh) mod n
      in map (\<lambda>i. take (nat (group_size_of b r i)) (drop (nat (offset_of b r i)) sh)) [0..<nat n])"

section \<open>The relational store (\<open>scripts/create_database.py\<close>)\<close>

subsection \<open>Tables\<close>

text \<open>
  One record per \<open>CREATE TABLE\<close> of \<open>create_schema\<close>, one field per column, in the
  order of the statement.  A nullable \<open>TEXT\<close> or \<open>INTEGER\<close> column is an option; the
  three flag columns of \<open>functions\<close> are the integers 0 and 1 the script stores.
\<close>

record module_row =
  m_id :: int
  m_name :: string
  m_docstring :: "string option"

record class_row =
  c_id :: int
  c_name :: string
  c_full_qualified_name :: string
  c_docstring :: "string option"
  c_module_id :: int

record inheritance_row =
  i_class_id :: int
  i_base_class_name :: string

record function_row =
  f_id :: int
  f_name :: string
  f_full_qualified_name :: string
  f_signature_string :: string
  f_docstring :: "string option"
  f_return_annotation :: "string option"
  f_is_async :: int
  f_is_classmethod :: int
  f_is_staticmethod :: int
  f_class_id :: "int option"
  f_module_id :: int

record parameter_row =
  p_id :: int
  p_function_id :: int
  p_name :: string
  p_kind :: string
  p_annotation :: "string option"
  p_default_value :: "string option"
  p_position :: int

record example_row =
  e_id :: int
  e_code :: string
  e_description :: "string option"
  e_function_id :: "int option"
  e_class_id :: "int option"

text \<open>
  The two FTS5 tables are external-content indexes (\<open>content='classes'\<close>,
  \<open>content_rowid='id'\<close>): what they hold is what the triggers put into them.  An
  index is modelled by the list of entries inserted and not yet deleted.
\<close>

record classes_fts_row =
  cf_rowid :: int
  cf_name :: string
  cf_full_qualified_name :: string
  cf_docstring :: "string option"

record functions_fts_row =
  ff_rowid :: int
  ff_name :: string
  ff_full_qualified_name :: string
  ff_docstring :: "string option"
  ff_signature_string :: string

text \<open>
  A database (the table \<open>functions\<close> is the field \<open>functions_tbl\<close>, the plain
  name being a keyword of Isabelle): whether \<open>create_schema\<close> has run on it, the rows of each table in
  insertion order, the two indexes, and for the four \<open>AUTOINCREMENT\<close> tables the
  pipeline writes the largest row id ever used (SQLite's \<open>sqlite_sequence\<close>).
\<close>

record database =
  tables_exist :: bool
  modules :: "module_row list"
  classes :: "class_row list"
  class_inheritance :: "inheritance_row list"
  functions_tbl :: "function_row list"
  parameters :: "parameter_row list"
  examples :: "example_row list"
  classes_fts :: "classes_fts_row list"
  functions_fts :: "functions_fts_row list"
  seq_modules :: int
  seq_classes :: int
  seq_functions :: int
  seq_parameters :: int

definition new_database :: database where
  "new_database =
     \<lparr>tables_exist = False, modules = [], classes = [], class_inheritance = [],
      functions_tbl = [], parameters = [], examples = [], classes_fts = [], functions_fts = [],
      seq_modules = 0, seq_classes = 0, seq_functions = 0, seq_parameters = 0\<rparr>"

text \<open>
  The columns of \<open>modules\<close>, from its \<open>CREATE TABLE\<close> statement, each with the way to
  read it from a row; a query can name no other column.
\<close>

datatype sql_value = Null | Integer int | Text string

definition modules_columns :: "(string \<times> (module_row \<Rightarrow> sql_value)) list" where
  "modules_columns =
     [(''id'', \<lambda>r. Integer (m_id r)),
      (''name'', \<lambda>r. Text (m_name r)),
      (''docstring'', \<lambda>r. case m_docstring r of None \<Rightarrow> Null | Some d \<Rightarrow> Text d)]"

text \<open>An \<open>AUTOINCREMENT\<close> key: one more than the largest id in the table or ever used.\<close>

definition next_rowid :: "int \<Rightarrow> int list \<Rightarrow> int" where
  "next_rowid seq ids = fold max ids seq + 1"

subsection \<open>The FTS5 triggers\<close>

text \<open>
  The six triggers of \<open>create_schema\<close>.  \<open>INSERT INTO classes_fts(rowid, ...)\<close> adds
  an entry; \<open>INSERT INTO classes_fts(classes_fts, rowid, ...) VALUES('delete', ...)\<close>
  is FTS5's delete command, which removes the entry of that row id with those values.
\<close>

definition class_fts_entry :: "class_row \<Rightarrow> classes_fts_row" where
  "class_fts_entry r =
     \<lparr>cf_rowid = c_id r, cf_name = c_name r,
      cf_full_qualified_name = c_full_qualified_name r, cf_docstring = c_docstring r\<rparr>"

definition function_fts_entry :: "function_row \<Rightarrow> functions_fts_row" where
  "function_fts_entry r =
     \<lparr>ff_rowid = f_id r, ff_name = f_name r,
      ff_full_qualified_name = f_full_qualified_name r, ff_docstring = f_docstring r,
      ff_signature_string = f_signature_string r\<rparr>"

definition classes_ai :: "class_row \<Rightarrow> database \<Rightarrow> database" where
  "classes_ai new db = db\<lparr>classes_fts := classes_fts db @ [class_fts_entry new]\<rparr>"

definition classes_ad :: "class_row \<Rightarrow> database \<Rightarrow> database" where
  "classes_ad old db = db\<lparr>classes_fts := remove1 (class_fts_entry old) (classes_fts db)\<rparr>"

definition classes_au :: "class_row \<Rightarrow> class_row \<Rightarrow> database \<Rightarrow> database" where
  "classes_au old new db =
     (let db1 = db\<lparr>classes_fts := remove1 (class_fts_entry old) (classes_fts db)\<rparr>
      in db1\<lparr>classes_fts := classes_fts db1 @ [class_fts_entry new]\<rparr>)"

definition functions_ai :: "function_row \<Rightarrow> database \<Rightarrow> database" where
  "functions_ai new db = db\<lparr>functions_fts := functions_fts db @ [function_fts_entry new]\<rparr>"

definition functions_ad :: "function_row \<Rightarrow> database \<Rightarrow> database" where
  "functions_ad old db =
     db\<lparr>functions_fts := remove1 (function_fts_entry old) (functions_fts db)\<rparr>"

definition functions_au :: "function_row \<Rightarrow> function_row \<Rightarrow> database \<Rightarrow> database" where
  "functions_au old new db =
     (let db1 = db\<lparr>functions_fts := remove1 (function_fts_entry old) (functions_fts db)\<rparr>
      in db1\<lparr>functions_fts := functions_fts db1 @ [function_fts_entry new]\<rparr>)"

subsection \<open>Statements\<close>

text \<open>
  What SQLite does with the statements run against this schema.  \<open>create\<close> sets
  \<open>PRAGMA foreign_keys = ON\<close> on the connection it opens, as the tests do on theirs,
  so foreign keys are enforced.  A statement that violates a constraint raises
  \<open>IntegrityError\<close> and changes nothing; a row-level trigger runs for each row a
  statement inserts, deletes or updates.

  \<open>INSERT INTO modules (name, docstring) VALUES (?, ?)\<close>; the value returned with
  the database is \<open>cursor.lastrowid\<close>.
\<close>

definition insert_into_modules :: "string \<Rightarrow> string option \<Rightarrow> database \<Rightarrow> error + int \<times> database" where
  "insert_into_modules name docstring db =
     (if \<not> tables_exist db then Inl (OperationalError ''no such table: modules'')
      else if name \<in> set (map m_name (modules db))
        then Inl (IntegrityError ''UNIQUE constraint failed: modules.name'')
      else
        (let rowid = next_rowid (seq_modules db) (map m_id (modules db))
         in Inr (rowid,
              db\<lparr>modules := modules db @ [\<lparr>m_id = rowid, m_name = name, m_docstring = docstring\<rparr>],
                 seq_modules := rowid\<rparr>)))"

text \<open>
  Inserting one row into \<open>classes\<close>, the key already chosen: the constraints of the
  table, the row, then the trigger \<open>classes_ai\<close>.
\<close>

definition insert_class_row :: "class_row \<Rightarrow> database \<Rightarrow> error + database" where
  "insert_class_row r db =
     (if \<not> tables_exist db then Inl (OperationalError ''no such table: classes'')
      else if c_id r \<in> set (map c_id (classes db))
        then Inl (IntegrityError ''UNIQUE constraint failed: classes.id'')
      else if c_full_qualified_name r \<in> set (map c_full_qualified_name (classes db))
        then Inl (IntegrityError ''UNIQUE constraint failed: classes.full_qualified_name'')
      else if c_module_id r \<notin> set (map m_id (modules db))
        then Inl (IntegrityError ''FOREIGN KEY constraint failed'')
      else Inr (classes_ai r
             (db\<lparr>classes := classes db @ [r], seq_classes := max (seq_classes db) (c_id r)\<rparr>)))"

text \<open>\<open>INSERT INTO classes (name, full_qualified_name, docstring, module_id) VALUES (?, ?, ?, ?)\<close>\<close>

definition insert_into_classes ::
  "string \<Rightarrow> string \<Rightarrow> string option \<Rightarrow> int \<Rightarrow> database \<Rightarrow> error + int \<times> database" where
  "insert_into_classes name qualified_name docstring module_id db =
     (let rowid = next_rowid (seq_classes db) (map c_id (classes db));
          r = \<lparr>c_id = rowid, c_name = name, c_full_qualified_name = qualified_name,
               c_docstring = docstring, c_module_id = module_id\<rparr>
      in case insert_class_row r db of
           Inl e \<Rightarrow> Inl e
         | Inr db' \<Rightarrow> Inr (rowid, db'))"

text \<open>
  \<open>DELETE FROM classes WHERE id = ?\<close>: no row, no change; a row that another table
  references cannot go; otherwise the row goes and \<open>classes_ad\<close> runs.
\<close>

definition class_referenced :: "int \<Rightarrow> database \<Rightarrow> bool" where
  "class_referenced cid db =
     (cid \<in> set (map i_class_id (class_inheritance db)) \<or>
      Some cid \<in> set (map f_class_id (functions_tbl db)) \<or>
      Some cid \<in> set (map e_class_id (examples db)))"

definition delete_class_row :: "int \<Rightarrow> database \<Rightarrow> error + database" where
  "delete_class_row cid db =
     (if \<not> tables_exist db then Inl (OperationalError ''no such table: classes'')
      else case find (\<lambda>r. c_id r = cid) (classes db) of
        None \<Rightarrow> Inr db
      | Some old \<Rightarrow>
          if class_referenced cid db then Inl (IntegrityError ''FOREIGN KEY constraint failed'')
          else Inr (classes_ad old (db\<lparr>classes := remove1 old (classes db)\<rparr>)))"

text \<open>
  \<open>UPDATE classes SET id = ?, name = ?, full_qualified_name = ?, docstring = ?,
  module_id = ? WHERE id = ?\<close>: the row becomes \<open>new\<close> and \<open>classes_au\<close> runs.
\<close>

definition update_class_row :: "int \<Rightarrow> class_row \<Rightarrow> database \<Rightarrow> error + database" where
  "update_class_row cid new db =
     (if \<not> tables_exist db then Inl (OperationalError ''no such table: classes'')
      else case find (\<lambda>r. c_id r = cid) (classes db) of
        None \<Rightarrow> Inr db
      | Some old \<Rightarrow>
          (let others = remove1 old (classes db)
           in if c_id new \<in> set (map c_id others)
                then Inl (IntegrityError ''UNIQUE constraint failed: classes.id'')
              else if c_full_qualified_name new \<in> set (map c_full_qualified_name others)
                then Inl (IntegrityError ''UNIQUE constraint failed: classes.full_qualified_name'')
              else if c_module_id new \<notin> set (map m_id (modules db))
                then Inl (IntegrityError ''FOREIGN KEY constraint failed'')
              else if c_id new \<noteq> cid \<and> class_referenced cid db
                then Inl (IntegrityError ''FOREIGN KEY constraint failed'')
              else Inr (classes_au old new
                     (db\<lparr>classes := map (\<lambda>r. if r = old then new else r) (classes db)\<rparr>))))"

text \<open>\<open>INSERT INTO class_inheritance (class_id, base_class_name) VALUES (?, ?)\<close>\<close>

definition insert_into_class_inheritance :: "int \<Rightarrow> string \<Rightarrow> database \<Rightarrow> error + database" where
  "insert_into_class_inheritance class_id base db =
     (let r = \<lparr>i_class_id = class_id, i_base_class_name = base\<rparr>
      in if \<not> tables_exist db then Inl (OperationalError ''no such table: class_inheritance'')
         else if r \<in> set (class_inheritance db)
           then Inl (IntegrityError
             ''UNIQUE constraint failed: class_inheritance.class_id, class_inheritance.base_class_name'')
         else if class_id \<notin> set (map c_id (classes db))
           then Inl (IntegrityError ''FOREIGN KEY constraint failed'')
         else Inr (db\<lparr>class_inheritance := class_inheritance db @ [r]\<rparr>))"

text \<open>The same three statements on \<open>functions\<close>, with the triggers of that table.\<close>

definition insert_function_row :: "function_row \<Rightarrow> database \<Rightarrow> error + database" where
  "insert_function_row r db =
     (if \<not> tables_exist db then Inl (OperationalError ''no such table: functions'')
      else if f_id r \<in> set (map f_id (functions_tbl db))
        then Inl (IntegrityError ''UNIQUE constraint failed: functions.id'')
      else if f_full_qualified_name r \<in> set (map f_full_qualified_name (functions_tbl db))
        then Inl (IntegrityError ''UNIQUE constraint failed: functions.full_qualified_name'')
      else if (case f_class_id r of None \<Rightarrow> False | Some cid \<Rightarrow> cid \<notin> set (map c_id (classes db)))
        then Inl (IntegrityError ''FOREIGN KEY constraint failed'')
      else if f_module_id r \<notin> set (map m_id (modules db))
        then Inl (IntegrityError ''FOREIGN KEY constraint failed'')
      else Inr (functions_ai r
             (db\<lparr>functions_tbl := functions_tbl db @ [r],
                 seq_functions := max (seq_functions db) (f_id r)\<rparr>)))"

definition function_referenced :: "int \<Rightarrow> database \<Rightarrow> bool" where
  "function_referenced fid db =
     (fid \<in> set (map p_function_id (parameters db)) \<or>
      Some fid \<in> set (map e_function_id (examples db)))"

definition delete_function_row :: "int \<Rightarrow> database \<Rightarrow> error + database" where
  "delete_function_row fid db =
     (if \<not> tables_exist db then Inl (OperationalError ''no such table: functions'')
      else case find (\<lambda>r. f_id r = fid) (functions_tbl db) of
        None \<Rightarrow> Inr db
      | Some old \<Rightarrow>
          if function_referenced fid db then Inl (IntegrityError ''FOREIGN KEY constraint failed'')
          else Inr (functions_ad old (db\<lparr>functions_tbl := remove1 old (functions_tbl db)\<rparr>)))"

definition update_function_row :: "int \<Rightarrow> function_row \<Rightarrow> database \<Rightarrow> error + database" where
  "update_function_row fid new db =
     (if \<not> tables_exist db then Inl (OperationalError ''no such table: functions'')
      else case find (\<lambda>r. f_id r = fid) (functions_tbl db) of
        None \<Rightarrow> Inr db
      | Some old \<Rightarrow>
          (let others = remove1 old (functions_tbl db)
           in if f_id new \<in> set (map f_id others)
                then Inl (IntegrityError ''UNIQUE constraint failed: functions.id'')
              else if f_full_qualified_name new \<in> set (map f_full_qualified_name others)
                then Inl (IntegrityError ''UNIQUE constraint failed: functions.full_qualified_name'')
              else if (case f_class_id new of None \<Rightarrow> False
                       | Some cid \<Rightarrow> cid \<notin> set (map c_id (classes db)))
                then Inl (IntegrityError ''FOREIGN KEY constraint failed'')
              else if f_module_id new \<notin> set (map m_id (modules db))
                then Inl (IntegrityError ''FOREIGN KEY constraint failed'')
              else if f_id new \<noteq> fid \<and> function_referenced fid db
                then Inl (IntegrityError ''FOREIGN KEY constraint failed'')
              else Inr (functions_au old new
                     (db\<lparr>functions_tbl := map (\<lambda>r. if r = old then new else r) (functions_tbl db)\<rparr>))))"

text \<open>
  \<open>INSERT INTO functions (name, ..., class_id, module_id) VALUES (?, ..., ?, ?)\<close>: the
  row as given but for its key, which the table chooses.
\<close>

definition insert_into_functions :: "function_row \<Rightarrow> database \<Rightarrow> error + int \<times> database" where
  "insert_into_functions r db =
     (let rowid = next_rowid (seq_functions db) (map f_id (functions_tbl db))
      in case insert_function_row (r\<lparr>f_id := rowid\<rparr>) db of
           Inl e \<Rightarrow> Inl e
         | Inr db' \<Rightarrow> Inr (rowid, db'))"

text \<open>\<open>INSERT INTO parameters (function_id, name, kind, annotation, default_value, position)\<close>\<close>

definition insert_into_parameters :: "parameter_row \<Rightarrow> database \<Rightarrow> error + database" where
  "insert_into_parameters r db =
     (if \<not> tables_exist db then Inl (OperationalError ''no such table: parameters'')
      else if p_function_id r \<notin> set (map f_id (functions_tbl db))
        then Inl (IntegrityError ''FOREIGN KEY constraint failed'')
      else
        (let rowid = next_rowid (seq_parameters db) (map p_id (parameters db))
         in Inr (db\<lparr>parameters := parameters db @ [r\<lparr>p_id := rowid\<rparr>],
                   seq_parameters := rowid\<rparr>)))"

text \<open>
  The same statements with \<open>REPLACE\<close> conflict resolution (\<open>INSERT OR REPLACE\<close>,
  \<open>REPLACE INTO\<close>, \<open>UPDATE OR REPLACE\<close>).  Where a plain statement fails on a
  \<open>UNIQUE\<close> or \<open>PRIMARY KEY\<close> conflict, these delete the rows in conflict and go on.
  SQLite runs the delete triggers for the rows it removes this way only under
  \<open>PRAGMA recursive_triggers = ON\<close>; the script never sets it, so \<open>classes_ad\<close> and
  \<open>functions_ad\<close> do not run for them.  Foreign keys are still checked: a removed row
  that another table references makes the statement fail unless the new row takes its
  key.
\<close>

definition replace_class_row :: "class_row \<Rightarrow> database \<Rightarrow> error + database" where
  "replace_class_row r db =
     (let removed = filter (\<lambda>x. c_id x = c_id r \<or>
                                 c_full_qualified_name x = c_full_qualified_name r) (classes db);
          kept = filter (\<lambda>x. c_id x \<noteq> c_id r \<and>
                              c_full_qualified_name x \<noteq> c_full_qualified_name r) (classes db)
      in if \<not> tables_exist db then Inl (OperationalError ''no such table: classes'')
         else if c_module_id r \<notin> set (map m_id (modules db))
           then Inl (IntegrityError ''FOREIGN KEY constraint failed'')
         else if filter (\<lambda>x. c_id x \<noteq> c_id r \<and> class_referenced (c_id x) db) removed \<noteq> []
           then Inl (IntegrityError ''FOREIGN KEY constraint failed'')
         else Inr (classes_ai r
                (db\<lparr>classes := kept @ [r], seq_classes := max (seq_classes db) (c_id r)\<rparr>)))"

definition update_or_replace_class_row :: "int \<Rightarrow> class_row \<Rightarrow> database \<Rightarrow> error + database" where
  "update_or_replace_class_row cid new db =
     (if \<not> tables_exist db then Inl (OperationalError ''no such table: classes'')
      else case find (\<lambda>r. c_id r = cid) (classes db) of
        None \<Rightarrow> Inr db
      | Some old \<Rightarrow>
          (let others = remove1 old (classes db);
               removed = filter (\<lambda>x. c_id x = c_id new \<or>
                                      c_full_qualified_name x = c_full_qualified_name new) others
           in if c_module_id new \<notin> set (map m_id (modules db))
                then Inl (IntegrityError ''FOREIGN KEY constraint failed'')
              else if c_id new \<noteq> cid \<and> class_referenced cid db
                then Inl (IntegrityError ''FOREIGN KEY constraint failed'')
              else if filter (\<lambda>x. c_id x \<noteq> c_id new \<and> class_referenced (c_id x) db) removed \<noteq> []
                then Inl (IntegrityError ''FOREIGN KEY constraint failed'')
              else Inr (classes_au old new
                     (db\<lparr>classes := map (\<lambda>r. if r = old then new else r)
                                        (filter (\<lambda>x. x \<notin> set removed) (classes db))\<rparr>))))"

definition replace_function_row :: "function_row \<Rightarrow> database \<Rightarrow> error + database" where
  "replace_function_row r db =
     (let removed = filter (\<lambda>x. f_id x = f_id r \<or>
                                 f_full_qualified_name x = f_full_qualified_name r) (functions_tbl db);
          kept = filter (\<lambda>x. f_id x \<noteq> f_id r \<and>
                              f_full_qualified_name x \<noteq> f_full_qualified_name r) (functions_tbl db)
      in if \<not> tables_exist db then Inl (OperationalError ''no such table: functions'')
         else if (case f_class_id r of None \<Rightarrow> False | Some cid \<Rightarrow> cid \<notin> set (map c_id (classes db)))
           then Inl (IntegrityError ''FOREIGN KEY constraint failed'')
         else if f_module_id r \<notin> set (map m_id (modules db))
           then Inl (IntegrityError ''FOREIGN KEY constraint failed'')
         else if filter (\<lambda>x. f_id x \<noteq> f_id r \<and> function_referenced (f_id x) db) removed \<noteq> []
           then Inl (IntegrityError ''FOREIGN KEY constraint failed'')
         else Inr (functions_ai r
                (db\<lparr>functions_tbl := kept @ [r],
                    seq_functions := max (seq_functions db) (f_id r)\<rparr>)))"

definition update_or_replace_function_row :: "int \<Rightarrow> function_row \<Rightarrow> database \<Rightarrow> error + database" where
  "update_or_replace_function_row fid new db =
     (if \<not> tables_exist db then Inl (OperationalError ''no such table: functions'')
      else case find (\<lambda>r. f_id r = fid) (functions_tbl db) of
        None \<Rightarrow> Inr db
      | Some old \<Rightarrow>
          (let others = remove1 old (functions_tbl db);
               removed = filter (\<lambda>x. f_id x = f_id new \<or>
                                      f_full_qualified_name x = f_full_qualified_name new) others
           in if (case f_class_id new of None \<Rightarrow> False
                  | Some cid \<Rightarrow> cid \<notin> set (map c_id (classes db)))
                then Inl (IntegrityError ''FOREIGN KEY constraint failed'')
              else if f_module_id new \<notin> set (map m_id (modules db))
                then Inl (IntegrityError ''FOREIGN KEY constraint failed'')
              else if f_id new \<noteq> fid \<and> function_referenced fid db
                then Inl (IntegrityError ''FOREIGN KEY constraint failed'')
              else if filter (\<lambda>x. f_id x \<noteq> f_id new \<and> function_referenced (f_id x) db) removed \<noteq> []
                then Inl (IntegrityError ''FOREIGN KEY constraint failed'')
              else Inr (functions_au old new
                     (db\<lparr>functions_tbl := map (\<lambda>r. if r = old then new else r)
                                        (filter (\<lambda>x. x \<notin> set removed) (functions_tbl db))\<rparr>))))"

text \<open>
  A sequence of statements on the two indexed tables, as any client of the database may
  run them: each statement takes effect or is rejected and changes nothing.  The plain
  statements are the ones without \<open>OR REPLACE\<close>.
\<close>

datatype statement =
    InsertClass class_row
  | DeleteClass int
  | UpdateClass int class_row
  | InsertOrReplaceClass class_row
  | UpdateOrReplaceClass int class_row
  | InsertFunction function_row
  | DeleteFunction int
  | UpdateFunction int function_row
  | InsertOrReplaceFunction function_row
  | UpdateOrReplaceFunction int function_row

fun execute :: "statement \<Rightarrow> database \<Rightarrow> error + database" where
  "execute (InsertClass r) db = insert_class_row r db"
| "execute (DeleteClass cid) db = delete_class_row cid db"
| "execute (UpdateClass cid new) db = update_class_row cid new db"
| "execute (InsertOrReplaceClass r) db = replace_class_row r db"
| "execute (UpdateOrReplaceClass cid new) db = update_or_replace_class_row cid new db"
| "execute (InsertFunction r) db = insert_function_row r db"
| "execute (DeleteFunction fid) db = delete_function_row fid db"
| "execute (UpdateFunction fid new) db = update_function_row fid new db"
| "execute (InsertOrReplaceFunction r) db = replace_function_row r db"
| "execute (UpdateOrReplaceFunction fid new) db = update_or_replace_function_row fid new db"

fun plain :: "statement \<Rightarrow> bool" where
  "plain (InsertOrReplaceClass r) = False"
| "plain (UpdateOrReplaceClass cid new) = False"
| "plain (InsertOrReplaceFunction r) = False"
| "plain (UpdateOrReplaceFunction fid new) = False"
| "plain s = True"

fun run :: "statement list \<Rightarrow> database \<Rightarrow> database" where
  "run [] db = db"
| "run (s # ss) db = run ss (case execute s db of Inl e \<Rightarrow> db | Inr db' \<Rightarrow> db')"

text \<open>
  Full-text search.  The tokenizer of FTS5 is a parameter \<open>tok\<close>; an entry matches a
  token that occurs in one of its columns.  The query is the one of the test suite:
  \<open>SELECT c.* FROM classes_fts JOIN classes c ON classes_fts.rowid = c.id
  WHERE classes_fts MATCH ?\<close>, and its analogue on \<open>functions\<close>.
\<close>

definition opt_tokens :: "(string \<Rightarrow> string list) \<Rightarrow> string option \<Rightarrow> string list" where
  "opt_tokens tok d = (case d of None \<Rightarrow> [] | Some t \<Rightarrow> tok t)"

definition classes_fts_match :: "(string \<Rightarrow> string list) \<Rightarrow> string \<Rightarrow> classes_fts_row \<Rightarrow> bool" where
  "classes_fts_match tok t e =
     (t \<in> set (tok (cf_name e) @ tok (cf_full_qualified_name e) @ opt_tokens tok (cf_docstring e)))"

definition functions_fts_match :: "(string \<Rightarrow> string list) \<Rightarrow> string \<Rightarrow> functions_fts_row \<Rightarrow> bool" where
  "functions_fts_match tok t e =
     (t \<in> set (tok (ff_name e) @ tok (ff_full_qualified_name e) @ opt_tokens tok (ff_docstring e)
               @ tok (ff_signature_string e)))"

definition search_classes :: "(string \<Rightarrow> string list) \<Rightarrow> string \<Rightarrow> database \<Rightarrow> class_row list" where
  "search_classes tok t db =
     concat (map (\<lambda>e. filter (\<lambda>c. c_id c = cf_rowid e) (classes db))
                 (filter (classes_fts_match tok t) (classes_fts db)))"

definition search_functions :: "(string \<Rightarrow> string list) \<Rightarrow> string \<Rightarrow> database \<Rightarrow> function_row list" where
  "search_functions tok t db =
     concat (map (\<lambda>e. filter (\<lambda>f. f_id f = ff_rowid e) (functions_tbl db))
                 (filter (functions_fts_match tok t) (functions_fts db)))"

subsection \<open>Consistency of the shadow indexes\<close>

text \<open>
  The index of a table holds exactly one mirrored entry for each row of the table, and
  row ids are unique (the tables declare \<open>id INTEGER PRIMARY KEY\<close>).
\<close>

definition fts_consistent :: "database \<Rightarrow> bool" where
  "fts_consistent db \<longleftrightarrow>
     mset (classes_fts db) = mset (map class_fts_entry (classes db)) \<and>
     mset (functions_fts db) = mset (map function_fts_entry (functions_tbl db))"

definition primary_keys_unique :: "database \<Rightarrow> bool" where
  "primary_keys_unique db \<longleftrightarrow>
     distinct (map c_id (classes db)) \<and> distinct (map f_id (functions_tbl db))"

subsection \<open>The input document\<close>

text \<open>
  The JSON document \<open>introspect.py\<close> writes.  The keys the script reads with
  \<open>data["key"]\<close> are plain fields, the ones it reads with \<open>data.get("key")\<close> are
  options, the three flags (tested for truth) are booleans, and a list read with
  \<open>data.get("key", [])\<close> is a list, empty when the key is missing.
\<close>

record param_doc =
  pd_name :: string
  pd_kind :: string
  pd_annotation :: "string option"
  pd_default :: "string option"

record func_doc =
  fd_name :: string
  fd_qualified_name :: string
  fd_signature_string :: string
  fd_docstring :: "string option"
  fd_return_annotation :: "string option"
  fd_is_async :: bool
  fd_is_classmethod :: bool
  fd_is_staticmethod :: bool
  fd_parameters :: "param_doc list"

record class_doc =
  cd_name :: string
  cd_qualified_name :: string
  cd_docstring :: "string option"
  cd_bases :: "string list"
  cd_methods :: "func_doc list"

datatype module_doc =
  ModuleDoc (md_name: string) (md_docstring: "string option") (md_classes: "class_doc list")
    (md_functions: "func_doc list") (md_submodules: "module_doc list")

subsection \<open>\<open>DatabaseCreator\<close>\<close>

text \<open>
  The object: its path, what its open connection sees (the file plus the changes of the
  pending transaction), and the two dictionaries.  The database files themselves are a
  map from paths to databases, changed by \<open>commit\<close> only.
\<close>

record creator =
  db_path :: string
  conn :: database
  module_ids :: "(string \<times> int) list"
  class_ids :: "(string \<times> int) list"

type_synonym files = "string \<Rightarrow> database option"

definition commit :: "creator \<Rightarrow> files \<Rightarrow> files" where
  "commit c fs = fs(db_path c \<mapsto> conn c)"

text \<open>
  \<open>create_schema\<close>: every statement is \<open>CREATE ... IF NOT EXISTS\<close>, so the tables,
  indexes and triggers are there afterwards and rows already present stay; then
  \<open>commit\<close>.
\<close>

definition create_schema :: "creator \<Rightarrow> files \<Rightarrow> creator \<times> files" where
  "create_schema c fs =
     (let c' = c\<lparr>conn := (conn c)\<lparr>tables_exist := True\<rparr>\<rparr>
      in (c', commit c' fs))"

definition insert_module :: "module_doc \<Rightarrow> creator \<Rightarrow> (error + int) \<times> creator" where
  "insert_module module_data c =
     (case insert_into_modules (md_name module_data) (md_docstring module_data) (conn c) of
        Inl e \<Rightarrow> (Inl e, c)
      | Inr (module_id, db') \<Rightarrow>
          (Inr module_id,
           c\<lparr>conn := db',
             module_ids := AList.update (md_name module_data) module_id (module_ids c)\<rparr>))"

text \<open>The loop over \<open>enumerate(func_data.get("parameters", []))\<close>.\<close>

fun insert_parameters :: "int \<Rightarrow> int \<Rightarrow> param_doc list \<Rightarrow> creator \<Rightarrow> (error + unit) \<times> creator" where
  "insert_parameters function_id position [] c = (Inr (), c)"
| "insert_parameters function_id position (param_data # rest) c =
     (case insert_into_parameters
             \<lparr>p_id = 0, p_function_id = function_id, p_name = pd_name param_data,
              p_kind = pd_kind param_data, p_annotation = pd_annotation param_data,
              p_default_value = pd_default param_data, p_position = position\<rparr> (conn c) of
        Inl e \<Rightarrow> (Inl e, c)
      | Inr db' \<Rightarrow> insert_parameters function_id (position + 1) rest (c\<lparr>conn := db'\<rparr>))"

definition insert_function :: "func_doc \<Rightarrow> int \<Rightarrow> int option \<Rightarrow> creator \<Rightarrow> (error + unit) \<times> creator" where
  "insert_function func_data module_id class_id c =
     (case insert_into_functions
             \<lparr>f_id = 0, f_name = fd_name func_data,
              f_full_qualified_name = fd_qualified_name func_data,
              f_signature_string = fd_signature_string func_data,
              f_docstring = fd_docstring func_data,
              f_return_annotation = fd_return_annotation func_data,
              f_is_async = (if fd_is_async func_data then 1 else 0),
              f_is_classmethod = (if fd_is_classmethod func_data then 1 else 0),
              f_is_staticmethod = (if fd_is_staticmethod func_data then 1 else 0),
              f_class_id = class_id, f_module_id = module_id\<rparr> (conn c) of
        Inl e \<Rightarrow> (Inl e, c)
      | Inr (function_id, db') \<Rightarrow>
          insert_parameters function_id 0 (fd_parameters func_data) (c\<lparr>conn := db'\<rparr>))"

text \<open>The loops of \<open>insert_class\<close>: over the bases, then over the methods.\<close>

fun insert_bases :: "int \<Rightarrow> string list \<Rightarrow> creator \<Rightarrow> (error + unit) \<times> creator" where
  "insert_bases class_id [] c = (Inr (), c)"
| "insert_bases class_id (base # rest) c =
     (case insert_into_class_inheritance class_id base (conn c) of
        Inl e \<Rightarrow> (Inl e, c)
      | Inr db' \<Rightarrow> insert_bases class_id rest (c\<lparr>conn := db'\<rparr>))"

fun insert_functions :: "func_doc list \<Rightarrow> int \<Rightarrow> int option \<Rightarrow> creator \<Rightarrow> (error + unit) \<times> creator" where
  "insert_functions [] module_id class_id c = (Inr (), c)"
| "insert_functions (func_data # rest) module_id class_id c =
     (case insert_function func_data module_id class_id c of
        (Inl e, c') \<Rightarrow> (Inl e, c')
      | (Inr u, c') \<Rightarrow> insert_functions rest module_id class_id c')"

definition insert_class :: "class_doc \<Rightarrow> int \<Rightarrow> creator \<Rightarrow> (error + unit) \<times> creator" where
  "insert_class class_data module_id c =
     (case insert_into_classes (cd_name class_data) (cd_qualified_name class_data)
             (cd_docstring class_data) module_id (conn c) of
        Inl e \<Rightarrow> (Inl e, c)
      | Inr (class_id, db') \<Rightarrow>
          (let c1 = c\<lparr>conn := db',
                     class_ids := AList.update (cd_qualified_name class_data) class_id (class_ids c)\<rparr>
           in case insert_bases class_id (cd_bases class_data) c1 of
                (Inl e, c2) \<Rightarrow> (Inl e, c2)
              | (Inr u, c2) \<Rightarrow> insert_functions (cd_methods class_data) module_id (Some class_id) c2))"

fun insert_classes :: "class_doc list \<Rightarrow> int \<Rightarrow> creator \<Rightarrow> (error + unit) \<times> creator" where
  "insert_classes [] module_id c = (Inr (), c)"
| "insert_classes (class_data # rest) module_id c =
     (case insert_class class_data module_id c of
        (Inl e, c') \<Rightarrow> (Inl e, c')
      | (Inr u, c') \<Rightarrow> insert_classes rest module_id c')"

text \<open>
  \<open>process_module\<close>, the local function of \<open>populate_database\<close>, and its loop over
  the submodules.  An exception leaves the connection with the rows inserted so far
  in its pending transaction.
\<close>

fun process_module :: "module_doc \<Rightarrow> creator \<Rightarrow> (error + unit) \<times> creator"
  and process_submodules :: "module_doc list \<Rightarrow> creator \<Rightarrow> (error + unit) \<times> creator" where
  "process_module (ModuleDoc name docstring cls funs subs) c =
     (case insert_module (ModuleDoc name docstring cls funs subs) c of
        (Inl e, c1) \<Rightarrow> (Inl e, c1)
      | (Inr module_id, c1) \<Rightarrow>
          (case insert_classes cls module_id c1 of
             (Inl e, c2) \<Rightarrow> (Inl e, c2)
           | (Inr u, c2) \<Rightarrow>
               (case insert_functions funs module_id None c2 of
                  (Inl e, c3) \<Rightarrow> (Inl e, c3)
                | (Inr u, c3) \<Rightarrow> process_submodules subs c3)))"
| "process_submodules [] c = (Inr (), c)"
| "process_submodules (submodule_data # rest) c =
     (case process_module submodule_data c of
        (Inl e, c') \<Rightarrow> (Inl e, c')
      | (Inr u, c') \<Rightarrow> process_submodules rest c')"

text \<open>\<open>populate_database\<close>: the traversal, then \<open>commit\<close>; an exception skips the commit.\<close>

definition populate_database :: "module_doc \<Rightarrow> creator \<Rightarrow> files \<Rightarrow> (error + unit) \<times> creator \<times> files" where
  "populate_database data c fs =
     (case process_module data c of
        (Inl e, c') \<Rightarrow> (Inl e, c', fs)
      | (Inr u, c') \<Rightarrow> (Inr (), c', commit c' fs))"

text \<open>
  \<open>create\<close>: remove an existing file; connect, which opens the file at the path or
  starts an empty database there; create the schema; populate; and, in the
  \<open>finally\<close> clause, close.  Closing drops the pending transaction: afterwards the
  database is what the file holds.  \<open>print_statistics\<close> only reads and prints.
\<close>

definition connect :: "string \<Rightarrow> files \<Rightarrow> database" where
  "connect path fs = (case fs path of None \<Rightarrow> new_database | Some db \<Rightarrow> db)"

definition create :: "module_doc \<Rightarrow> creator \<Rightarrow> files \<Rightarrow> (error + unit) \<times> creator \<times> files" where
  "create json_data c fs =
     (let fs1 = (if fs (db_path c) \<noteq> None then fs(db_path c := None) else fs);
          c1 = c\<lparr>conn := connect (db_path c) fs1\<rparr>;
          (c2, fs2) = create_schema c1 fs1;
          (res, c3, fs3) = populate_database json_data c2 fs2
      in (res, c3\<lparr>conn := connect (db_path c) fs3\<rparr>, fs3))"

subsection \<open>Queries\<close>

text \<open>
  \<open>SELECT name FROM modules WHERE column = ? ORDER BY name\<close>, the query of the test
  suite, for any column name.  Strings are compared byte by byte, as SQLite's default
  collation does.
\<close>

definition select_name_from_modules_where :: "string \<Rightarrow> sql_value \<Rightarrow> database \<Rightarrow> error + string list" where
  "select_name_from_modules_where column v db =
     (if \<not> tables_exist db then Inl (OperationalError ''no such table: modules'')
      else case map_of modules_columns column of
        None \<Rightarrow> Inl (OperationalError (''no such column: '' @ column))
      | Some get \<Rightarrow> Inr (sort (map m_name (filter (\<lambda>r. v \<noteq> Null \<and> get r = v) (modules db)))))"

section \<open>The command line of the partitioner (\<open>scripts/divide_entities.py\<close>)\<close>

record entity =
  ent_type :: string
  ent_id :: int
  ent_name :: string
  ent_full_qualified_name :: string

definition class_entity :: "class_row \<Rightarrow> entity" where
  "class_entity r =
     \<lparr>ent_type = ''CLASS'', ent_id = c_id r, ent_name = c_name r,
      ent_full_qualified_name = c_full_qualified_name r\<rparr>"

definition function_entity :: "function_row \<Rightarrow> entity" where
  "function_entity r =
     \<lparr>ent_type = ''FUNCTION'', ent_id = f_id r, ent_name = f_name r,
      ent_full_qualified_name = f_full_qualified_name r\<rparr>"

text \<open>
  \<open>export_entities\<close>: the union of the two tables, ordered by type and name (rows equal
  in both keep the order of the union here; SQLite promises no order among them).
\<close>

definition export_entities :: "string \<Rightarrow> files \<Rightarrow> error + entity list" where
  "export_entities path fs =
     (let db = connect path fs
      in if \<not> tables_exist db then Inl (OperationalError ''no such table: classes'')
         else Inr (sort_key (\<lambda>e. (ent_type e, ent_name e))
                     (map class_entity (classes db) @ map function_entity (functions_tbl db))))"

record args =
  arg_database :: string
  arg_groups :: int
  arg_output_dir :: string

text \<open>
  \<open>main\<close> returns its exit code, the files it wrote (directory, the 1-based number in
  the file name \<open>entity_group_N.json\<close>, content) and the generator state.
\<close>

definition main ::
  "(nat \<Rightarrow> 'g \<Rightarrow> nat \<times> 'g) \<Rightarrow> (int \<Rightarrow> 'g) \<Rightarrow> args \<Rightarrow> files \<Rightarrow> 'g
     \<Rightarrow> (error + int) \<times> (string \<times> nat \<times> entity list) list \<times> 'g" where
  "main rb sd a fs g =
     (if fs (arg_database a) = None then (Inr 1, [], g)
      else case export_entities (arg_database a) fs of
        Inl e \<Rightarrow> (Inl e, [], g)
      | Inr entities \<Rightarrow>
          (case divide_entities rb sd entities (arg_groups a) g of
             (Inl e, g') \<Rightarrow> (Inl e, [], g')
           | (Inr groups, g') \<Rightarrow>
               (Inr 0,
                map (\<lambda>(i, group). (arg_output_dir a, i, group))
                    (zip [1..<Suc (length groups)] groups),
                g')))"

text \<open>
  \<open>sys.exit(main())\<close>: the process exits with the value returned, and with 1 when an
  exception escapes.
\<close>

definition exit_code :: "error + int \<Rightarrow> int" where
  "exit_code r = (case r of Inl e \<Rightarrow> 1 | Inr n \<Rightarrow> n)"

section \<open>Example data\<close>

text \<open>
  A tokenizer that splits at spaces, a database with the schema and one module, and two
  class rows of that module with the same qualified name.
\<close>

fun split_at_spaces :: "string \<Rightarrow> string \<Rightarrow> string list" where
  "split_at_spaces w [] = (if w = [] then [] else [w])"
| "split_at_spaces w (ch # rest) =
     (if ch = CHR '' '' then (if w = [] then split_at_spaces [] rest else w # split_at_spaces [] rest)
      else split_at_spaces (w @ [ch]) rest)"

definition example_store :: database where
  "example_store =
     new_database\<lparr>tables_exist := True,
        modules := [\<lparr>m_id = 1, m_name = ''requests'', m_docstring = None\<rparr>],
        seq_modules := 1\<rparr>"

definition example_alpha :: class_row where
  "example_alpha =
     \<lparr>c_id = 1, c_name = ''A'', c_full_qualified_name = ''requests.A'',
      c_docstring = Some ''alpha'', c_module_id = 1\<rparr>"

definition example_beta :: class_row where
  "example_beta =
     \<lparr>c_id = 2, c_name = ''A'', c_full_qualified_name = ''requests.A'',
      c_docstring = Some ''beta'', c_module_id = 1\<rparr>"

text \<open>
  A creator as \<open>__init__\<close> leaves it, the document of the spec's
  scenario A (a module \<open>m\<close> with a class \<open>m.C\<close> whose bases are \<open>["object"]\<close> and a
  function \<open>m.f\<close> of two parameters), the same document with a submodule that repeats
  the name \<open>m\<close>, and the two modules of scenario B.
\<close>

definition example_creator :: creator where
  "example_creator = \<lparr>db_path = ''api.db'', conn = new_database, module_ids = [], class_ids = []\<rparr>"

definition example_class_doc :: class_doc where
  "example_class_doc =
     \<lparr>cd_name = ''C'', cd_qualified_name = ''m.C'', cd_docstring = None,
      cd_bases = [''object''], cd_methods = []\<rparr>"

definition example_func_doc :: func_doc where
  "example_func_doc =
     \<lparr>fd_name = ''f'', fd_qualified_name = ''m.f'', fd_signature_string = ''(x: int, y: int = 5)'',
      fd_docstring = None, fd_return_annotation = None, fd_is_async = False,
      fd_is_classmethod = False, fd_is_staticmethod = False,
      fd_parameters =
        [\<lparr>pd_name = ''x'', pd_kind = ''POSITIONAL_OR_KEYWORD'', pd_annotation = Some ''int'',
          pd_default = None\<rparr>,
         \<lparr>pd_name = ''y'', pd_kind = ''POSITIONAL_OR_KEYWORD'', pd_annotation = Some ''int'',
          pd_default = Some ''5''\<rparr>]\<rparr>"

definition example_module_doc :: module_doc where
  "example_module_doc = ModuleDoc ''m'' None [example_class_doc] [example_func_doc] []"

definition example_duplicate_doc :: module_doc where
  "example_duplicate_doc =
     ModuleDoc ''m'' None [example_class_doc] [example_func_doc] [ModuleDoc ''m'' None [] [] []]"

definition example_connected :: creator where
  "example_connected = fst (create_schema example_creator (\<lambda>p. None))"

definition example_pkg_a :: module_doc where
  "example_pkg_a = ModuleDoc ''pkg.a'' None [] [] []"

definition example_pkg_b :: module_doc where
  "example_pkg_b = ModuleDoc ''pkg.b'' None [] [] []"

definition example_args :: args where
  "example_args = \<lparr>arg_database = ''api.db'', arg_groups = 10, arg_output_dir = ''/tmp''\<rparr>"

section \<open>Properties of the partitioner\<close>

subsection \<open>The shuffle\<close>

lemma shuffle_from_length: "length (fst (shuffle_from rb k xs g)) = length xs"
  by (induction k arbitrary: xs g) (simp_all add: Let_def split: prod.splits)

lemma random_shuffle_length: "length (fst (random_shuffle rb xs g)) = length xs"
  by (simp add: random_shuffle_def shuffle_from_length)

lemma shuffle_from_mset:
  assumes "rng_ok rb" and "k < length xs"
  shows "mset (fst (shuffle_from rb k xs g)) = mset xs"
  using assms(2)
proof (induction k arbitrary: xs g)
  case 0
  show ?case by simp
next
  case (Suc k)
  obtain j g' where draw: "rb (Suc k + 1) g = (j, g')"
    by (cases "rb (Suc k + 1) g")
  have "fst (rb (Suc k + 1) g) < Suc k + 1"
    using assms(1) unfolding rng_ok_def by blast
  with draw have j: "j < length xs"
    using Suc.prems by simp
  let ?ys = "xs[Suc k := xs ! j, j := xs ! Suc k]"
  have swap: "mset ?ys = mset xs"
    using mset_swap [of j xs "Suc k"] j Suc.prems by simp
  have "k < length ?ys"
    using Suc.prems by simp
  then have "mset (fst (shuffle_from rb k ?ys g')) = mset ?ys"
    by (rule Suc.IH)
  with swap draw show ?case
    by simp
qed

lemma random_shuffle_mset:
  assumes "rng_ok rb"
  shows "mset (fst (random_shuffle rb xs g)) = mset xs"
proof (cases xs)
  case Nil
  then show ?thesis by (simp add: random_shuffle_def)
next
  case (Cons x xs')
  then have "length xs - 1 < length xs" by simp
  then show ?thesis
    unfolding random_shuffle_def by (rule shuffle_from_mset [OF assms])
qed

subsection \<open>The loop\<close>

lemma offset_of_Suc: "0 \<le> r \<Longrightarrow> offset_of b r (Suc i) = offset_of b r i + group_size_of b r i"
  by (auto simp: offset_of_def group_size_of_def algebra_simps min_def)

lemma fold_divide_step:
  assumes "0 \<le> r"
  shows "fold (divide_step sh b r) (map int [0..<m]) (0, []) =
         (offset_of b r m, map (\<lambda>i. py_slice sh (offset_of b r i) (offset_of b r (Suc i))) [0..<m])"
proof (induction m)
  case 0
  show ?case using assms by (simp add: offset_of_def)
next
  case (Suc m)
  show ?case
    using Suc.IH offset_of_Suc [OF assms, of b m]
    by (simp add: divide_step_def Let_def group_size_of_def)
qed

lemma py_slice_nonneg:
  assumes "0 \<le> s" "s \<le> e" "e \<le> int (length xs)"
  shows "py_slice xs s e = take (nat e - nat s) (drop (nat s) xs)"
  using assms by (simp add: py_slice_def Let_def min_def nat_diff_distrib)

lemma concat_slices:
  fixes f :: "nat \<Rightarrow> nat"
  assumes "f 0 = 0" and "\<And>i. i < m \<Longrightarrow> f i \<le> f (Suc i)"
  shows "concat (map (\<lambda>i. take (f (Suc i) - f i) (drop (f i) xs)) [0..<m]) = take (f m) xs"
  using assms(2)
proof (induction m)
  case 0
  show ?case by (simp add: assms(1))
next
  case (Suc m)
  have "take (f (Suc m)) xs = take (f m + (f (Suc m) - f m)) xs"
    using Suc.prems [of m] by simp
  also have "\<dots> = take (f m) xs @ take (f (Suc m) - f m) (drop (f m) xs)"
    by (rule take_add)
  finally show ?case
    using Suc.IH Suc.prems by simp
qed

lemma disjoint_groups:
  "distinct (concat gs) \<Longrightarrow> i < j \<Longrightarrow> j < length gs \<Longrightarrow> set (gs ! i) \<inter> set (gs ! j) = {}"
proof (induction gs arbitrary: i j)
  case Nil
  then show ?case by simp
next
  case (Cons g gs)
  show ?case
  proof (cases i)
    case 0
    with Cons.prems obtain j' where j': "j = Suc j'" "j' < length gs"
      by (cases j) auto
    then have "gs ! j' \<in> set gs"
      by simp
    then have "set (gs ! j') \<subseteq> set (concat gs)"
      by auto
    with Cons.prems(1) 0 j' show ?thesis
      by auto
  next
    case (Suc i')
    with Cons.prems obtain j' where j': "j = Suc j'" "j' < length gs" "i' < j'"
      by (cases j) auto
    with Cons.prems(1) Suc Cons.IH [of i' j'] show ?thesis
      by simp
  qed
qed


lemma offset_of_nonneg: "0 \<le> b \<Longrightarrow> 0 \<le> r \<Longrightarrow> 0 \<le> offset_of b r i"
  by (simp add: offset_of_def)

lemma offset_of_mono: "0 \<le> b \<Longrightarrow> 0 \<le> r \<Longrightarrow> offset_of b r i \<le> offset_of b r (Suc i)"
  by (simp add: offset_of_Suc group_size_of_def)

lemma offset_of_le:
  assumes "0 \<le> b" "0 \<le> r" "i \<le> m"
  shows "offset_of b r i \<le> offset_of b r m"
  using assms(3)
proof (induction m)
  case 0
  then show ?case by simp
next
  case (Suc m)
  show ?case
  proof (cases "i = Suc m")
    case True
    then show ?thesis by simp
  next
    case False
    with Suc have "offset_of b r i \<le> offset_of b r m" by simp
    also have "\<dots> \<le> offset_of b r (Suc m)" by (rule offset_of_mono [OF assms(1,2)])
    finally show ?thesis .
  qed
qed

lemma offset_of_total:
  assumes "1 \<le> n"
  shows "offset_of (t div n) (t mod n) (nat n) = t"
proof -
  have "t mod n < n" using assms by simp
  then have "min n (t mod n) = t mod n" by simp
  then show ?thesis
    using assms by (simp add: offset_of_def mult.commute)
qed

lemma divide_entities_groups:
  assumes "1 \<le> n"
  shows "fst (divide_entities rb sd E n g) = Inr (groups_of (fst (random_shuffle rb E (sd 42))) n)"
proof -
  obtain sh g2 where sh: "random_shuffle rb E (sd 42) = (sh, g2)"
    by (cases "random_shuffle rb E (sd 42)")
  define t where "t = int (length sh)"
  define b where "b = t div n"
  define r where "r = t mod n"
  have b0: "0 \<le> b" and r0: "0 \<le> r"
    using assms by (simp_all add: b_def r_def t_def pos_imp_zdiv_nonneg_iff)
  have slice: "py_slice sh (offset_of b r i) (offset_of b r (Suc i)) =
        take (nat (group_size_of b r i)) (drop (nat (offset_of b r i)) sh)" if "i < nat n" for i
  proof -
    have "offset_of b r (Suc i) \<le> offset_of b r (nat n)"
      using that by (intro offset_of_le [OF b0 r0]) simp
    also have "\<dots> = t"
      unfolding b_def r_def by (rule offset_of_total [OF assms])
    finally have up: "offset_of b r (Suc i) \<le> int (length sh)"
      by (simp add: t_def)
    have "py_slice sh (offset_of b r i) (offset_of b r (Suc i)) =
        take (nat (offset_of b r (Suc i)) - nat (offset_of b r i)) (drop (nat (offset_of b r i)) sh)"
      using offset_of_nonneg [OF b0 r0] offset_of_mono [OF b0 r0] up
      by (intro py_slice_nonneg)
    moreover have "nat (offset_of b r (Suc i)) - nat (offset_of b r i) = nat (group_size_of b r i)"
      using offset_of_nonneg [OF b0 r0, of i] by (simp add: offset_of_Suc [OF r0])
    ultimately show ?thesis by simp
  qed
  have "fst (divide_entities rb sd E n g) =
        Inr (snd (fold (divide_step sh b r) (map int [0..<nat n]) (0, [])))"
    using assms sh by (simp add: divide_entities_def Let_def py_range_def b_def r_def t_def)
  also have "\<dots> = Inr (map (\<lambda>i. py_slice sh (offset_of b r i) (offset_of b r (Suc i))) [0..<nat n])"
    by (simp add: fold_divide_step [OF r0])
  also have "\<dots> = Inr (map (\<lambda>i. take (nat (group_size_of b r i)) (drop (nat (offset_of b r i)) sh)) [0..<nat n])"
    using slice by simp
  finally show ?thesis
    using sh by (simp add: groups_of_def Let_def b_def r_def t_def)
qed

lemma groups_of_length: "length (groups_of sh n) = nat n"
  by (simp add: groups_of_def Let_def)

lemma groups_of_nth_length:
  assumes "1 \<le> n" "i < nat n"
  shows "int (length (groups_of sh n ! i)) =
         group_size_of (int (length sh) div n) (int (length sh) mod n) i"
proof -
  define t where "t = int (length sh)"
  define b where "b = t div n"
  define r where "r = t mod n"
  have b0: "0 \<le> b" and r0: "0 \<le> r"
    using assms by (simp_all add: b_def r_def t_def pos_imp_zdiv_nonneg_iff)
  have "offset_of b r (Suc i) \<le> offset_of b r (nat n)"
    using assms(2) by (intro offset_of_le [OF b0 r0]) simp
  also have "\<dots> = t"
    unfolding b_def r_def by (rule offset_of_total [OF assms(1)])
  finally have "offset_of b r i + group_size_of b r i \<le> int (length sh)"
    by (simp add: t_def offset_of_Suc [OF r0])
  moreover have "0 \<le> group_size_of b r i"
    using b0 by (simp add: group_size_of_def)
  moreover note offset_of_nonneg [OF b0 r0, of i]
  ultimately have "nat (offset_of b r i) + nat (group_size_of b r i) \<le> length sh"
    and "int (nat (group_size_of b r i)) = group_size_of b r i"
    by linarith+
  then have "int (length (take (nat (group_size_of b r i)) (drop (nat (offset_of b r i)) sh)))
      = group_size_of b r i"
    by simp
  then show ?thesis
    using assms(2) by (simp add: groups_of_def Let_def b_def r_def t_def)
qed

lemma groups_of_concat:
  assumes "1 \<le> n"
  shows "concat (groups_of sh n) = sh"
proof -
  define t where "t = int (length sh)"
  define b where "b = t div n"
  define r where "r = t mod n"
  define f where "f i = nat (offset_of b r i)" for i
  have b0: "0 \<le> b" and r0: "0 \<le> r"
    using assms by (simp_all add: b_def r_def t_def pos_imp_zdiv_nonneg_iff)
  have f0: "f 0 = 0" by (simp add: f_def offset_of_def)
  have fmono: "f i \<le> f (Suc i)" for i
    using offset_of_mono [OF b0 r0, of i] by (simp add: f_def)
  have fdiff: "f (Suc i) - f i = nat (group_size_of b r i)" for i
    using offset_of_nonneg [OF b0 r0, of i] by (simp add: f_def offset_of_Suc [OF r0])
  have "concat (groups_of sh n) =
        concat (map (\<lambda>i. take (f (Suc i) - f i) (drop (f i) sh)) [0..<nat n])"
    unfolding fdiff by (simp add: groups_of_def Let_def f_def b_def r_def t_def)
  also have "\<dots> = take (f (nat n)) sh"
    using f0 fmono by (intro concat_slices) simp_all
  also have "f (nat n) = length sh"
    using offset_of_total [OF assms, of t] by (simp add: f_def b_def r_def t_def)
  finally show ?thesis by simp
qed

subsection \<open>The claims about \<open>divide_entities\<close>\<close>

lemma divide_entities_shape:
  assumes "1 \<le> n"
  shows "\<exists>gs. fst (divide_entities rb sd E n g) = Inr gs \<and> length gs = nat n \<and>
          concat gs = fst (random_shuffle rb E (sd 42)) \<and>
          (\<forall>i<nat n. int (length (gs ! i)) =
               int (length E) div n + (if int i < int (length E) mod n then 1 else 0))"
proof -
  let ?sh = "fst (random_shuffle rb E (sd 42))"
  have len: "length ?sh = length E"
    by (rule random_shuffle_length)
  have "\<forall>i<nat n. int (length (groups_of ?sh n ! i)) =
               int (length E) div n + (if int i < int (length E) mod n then 1 else 0)"
    using groups_of_nth_length [OF assms, of _ ?sh] by (simp add: len group_size_of_def)
  then show ?thesis
    using divide_entities_groups [OF assms, of rb sd E g] groups_of_length [of ?sh n]
      groups_of_concat [OF assms, of ?sh]
    by blast
qed

lemma all_empty_replicate:
  assumes "length gs = m" and "\<forall>i<m. length (gs ! i) = 0"
  shows "gs = replicate m []"
proof (rule nth_equalityI)
  show "length gs = length (replicate m [])"
    using assms(1) by simp
next
  fix i
  assume "i < length gs"
  with assms show "gs ! i = replicate m [] ! i"
    by simp
qed

text \<open>
  Claim C5.  For every entity list \<open>E\<close> and every \<open>num_groups = n \<ge> 1\<close>,
  \<open>divide_entities\<close> returns \<open>n\<close> groups, group \<open>i\<close> (counted from 0) has
  \<open>len(E) // n + 1\<close> elements when \<open>i < len(E) % n\<close> and \<open>len(E) // n\<close>
  elements otherwise, and so any two group sizes differ by at most 1.
\<close>

theorem divide_balance:
  assumes "1 \<le> n"
  shows "\<exists>gs. fst (divide_entities rb sd E n g) = Inr gs \<and> int (length gs) = n \<and>
          (\<forall>i<length gs. int (length (gs ! i)) =
               int (length E) div n + (if int i < int (length E) mod n then 1 else 0)) \<and>
          (\<forall>i<length gs. \<forall>j<length gs. int (length (gs ! i)) - int (length (gs ! j)) \<le> 1)"
proof -
  obtain gs where gs: "fst (divide_entities rb sd E n g) = Inr gs" "length gs = nat n"
    and sz: "\<forall>i<nat n. int (length (gs ! i)) =
               int (length E) div n + (if int i < int (length E) mod n then 1 else 0)"
    using divide_entities_shape [OF assms, of rb sd E g] by blast
  have "int (length (gs ! i)) - int (length (gs ! j)) \<le> 1" if "i < nat n" "j < nat n" for i j
    using sz that by auto
  with gs sz assms show ?thesis
    by auto
qed

theorem divide_balance_witness:
  "(1::int) \<le> 3 \<and>
   (\<exists>gs. fst (divide_entities (\<lambda>n g. (g mod n, Suc g)) nat [10, 20, 30, 40, 50 :: int] 3 0) = Inr gs \<and>
      int (length gs) = 3 \<and>
      (\<forall>i<length gs. int (length (gs ! i)) =
               int (length [10, 20, 30, 40, 50 :: int]) div 3
                 + (if int i < int (length [10, 20, 30, 40, 50 :: int]) mod 3 then 1 else 0)) \<and>
      (\<forall>i<length gs. \<forall>j<length gs. int (length (gs ! i)) - int (length (gs ! j)) \<le> 1))"
  using divide_balance [of 3 "\<lambda>n g. (g mod n, Suc g)" nat "[10, 20, 30, 40, 50 :: int]" 0]
  by simp

text \<open>
  Claim C10.  \<open>divide_entities(entities, 0)\<close> raises \<open>ZeroDivisionError\<close> for every
  list, the empty one included, and for a negative \<open>num_groups\<close> the loop body never
  runs and the result is the empty list of groups.
\<close>

theorem divide_zero_or_negative:
  "fst (divide_entities rb sd E 0 g) = Inl ZeroDivisionError \<and>
   (n < 0 \<longrightarrow> fst (divide_entities rb sd E n g) = Inr [])"
  by (simp add: divide_entities_def Let_def py_range_def split: prod.splits)

theorem divide_zero_or_negative_witness:
  "fst (divide_entities (\<lambda>n g. (g mod n, Suc g)) nat ([] :: int list) 0 0) = Inl ZeroDivisionError \<and>
   (-2 :: int) < 0 \<and>
   fst (divide_entities (\<lambda>n g. (g mod n, Suc g)) nat ([] :: int list) (-2) 0) = Inr []"
  using divide_zero_or_negative [of "\<lambda>n g. (g mod n, Suc g)" nat "[] :: int list" 0 "-2"]
  by simp

text \<open>
  Claim C6.  The result of \<open>divide_entities\<close> does not depend on the state in which it
  finds the global generator, because \<open>random.seed(42)\<close> overwrites that state on every
  call: two calls on the same list contents and the same \<open>num_groups\<close> return the same
  groups in the same order, whatever was drawn before, and in particular a second call
  made right after the first (in the generator state the first one left) repeats its
  result.  Lists are values here, so equal contents is equality.
\<close>

theorem divide_deterministic:
  "fst (divide_entities rb sd E n g) = fst (divide_entities rb sd E n g') \<and>
   fst (divide_entities rb sd E n (snd (divide_entities rb sd E n g))) =
     fst (divide_entities rb sd E n g)"
  by (simp add: divide_entities_def)

theorem divide_deterministic_witness:
  "fst (divide_entities (\<lambda>n g. (g mod n, Suc g)) nat [10, 20, 30 :: int] 2 5) =
     fst (divide_entities (\<lambda>n g. (g mod n, Suc g)) nat [10, 20, 30 :: int] 2 77) \<and>
   fst (divide_entities (\<lambda>n g. (g mod n, Suc g)) nat [10, 20, 30 :: int] 2
          (snd (divide_entities (\<lambda>n g. (g mod n, Suc g)) nat [10, 20, 30 :: int] 2 5))) =
     fst (divide_entities (\<lambda>n g. (g mod n, Suc g)) nat [10, 20, 30 :: int] 2 5)"
  using divide_deterministic [of "\<lambda>n g. (g mod n, Suc g)" nat "[10, 20, 30 :: int]" 2 5 77]
  by simp


text \<open>
  Claim C4, as amended.  For a generator that keeps the library's contract and every
  \<open>num_groups = n \<ge> 1\<close>, \<open>divide_entities\<close> returns exactly \<open>n\<close> groups whose sizes
  sum to \<open>len(E)\<close>, whose concatenation is a permutation of \<open>E\<close> (every occurrence of
  an entity lands in exactly one group) and whose union is \<open>E\<close> as a set; the groups are
  pairwise disjoint when no entity occurs twice in \<open>E\<close>.  When \<open>n\<close> exceeds \<open>len(E)\<close>
  the first \<open>len(E)\<close> groups have size 1 and the others are empty, an empty \<open>E\<close> gives
  \<open>n\<close> empty groups, and \<open>n = 1\<close> gives one group holding everything.
\<close>

theorem divide_partition:
  assumes "rng_ok rb" and "1 \<le> n"
  shows "\<exists>gs. fst (divide_entities rb sd E n g) = Inr gs \<and>
          int (length gs) = n \<and>
          sum_list (map length gs) = length E \<and>
          mset (concat gs) = mset E \<and>
          \<Union> (set ` set gs) = set E \<and>
          (distinct E \<longrightarrow> (\<forall>i j. i < j \<and> j < length gs \<longrightarrow> set (gs ! i) \<inter> set (gs ! j) = {})) \<and>
          (int (length E) < n \<longrightarrow>
             (\<forall>i<length gs. length (gs ! i) = (if i < length E then 1 else 0))) \<and>
          (E = [] \<longrightarrow> gs = replicate (nat n) []) \<and>
          (n = 1 \<longrightarrow> (\<exists>ys. gs = [ys] \<and> mset ys = mset E))"
proof -
  let ?sh = "fst (random_shuffle rb E (sd 42))"
  obtain gs where res: "fst (divide_entities rb sd E n g) = Inr gs"
    and len: "length gs = nat n"
    and cat: "concat gs = ?sh"
    and sz: "\<forall>i<nat n. int (length (gs ! i)) =
               int (length E) div n + (if int i < int (length E) mod n then 1 else 0)"
    using divide_entities_shape [OF assms(2), of rb sd E g] by blast
  have perm: "mset (concat gs) = mset E"
    using cat random_shuffle_mset [OF assms(1), of E "sd 42"] by simp
  have count: "int (length gs) = n"
    using len assms(2) by simp
  have total: "sum_list (map length gs) = length E"
    using perm by (metis length_concat size_mset)
  have union: "\<Union> (set ` set gs) = set E"
    using perm by (metis set_concat set_mset_mset)
  have disj: "\<forall>i j. i < j \<and> j < length gs \<longrightarrow> set (gs ! i) \<inter> set (gs ! j) = {}" if "distinct E"
  proof -
    have "distinct (concat gs)"
      using perm that by (metis mset_eq_imp_distinct_iff)
    then show ?thesis
      using disjoint_groups [of gs] by blast
  qed
  have small: "\<forall>i<length gs. length (gs ! i) = (if i < length E then 1 else 0)"
    if "int (length E) < n"
  proof -
    have "int (length E) div n = 0" and "int (length E) mod n = int (length E)"
      using that by simp_all
    with sz len show ?thesis
      by auto
  qed
  have empty: "gs = replicate (nat n) []" if "E = []"
  proof -
    have "\<forall>i<nat n. length (gs ! i) = 0"
      using sz that by simp
    with len show ?thesis
      by (rule all_empty_replicate)
  qed
  have single: "\<exists>ys. gs = [ys] \<and> mset ys = mset E" if "n = 1"
  proof -
    from len that obtain ys where "gs = [ys]"
      by (cases gs) auto
    with perm show ?thesis
      by simp
  qed
  from res count total perm union disj small empty single show ?thesis
    by blast
qed

theorem divide_partition_witness:
  "rng_ok (\<lambda>n g. (g mod n, Suc g)) \<and> (1::int) \<le> 3 \<and>
   (\<exists>gs. fst (divide_entities (\<lambda>n g. (g mod n, Suc g)) nat [10, 20, 30, 40, 50 :: int] 3 0) = Inr gs \<and>
          int (length gs) = 3 \<and>
          sum_list (map length gs) = length [10, 20, 30, 40, 50 :: int] \<and>
          mset (concat gs) = mset [10, 20, 30, 40, 50 :: int] \<and>
          \<Union> (set ` set gs) = set [10, 20, 30, 40, 50 :: int] \<and>
          (distinct [10, 20, 30, 40, 50 :: int] \<longrightarrow>
             (\<forall>i j. i < j \<and> j < length gs \<longrightarrow> set (gs ! i) \<inter> set (gs ! j) = {})))"
proof -
  have ok: "rng_ok (\<lambda>n g. (g mod n, Suc g))"
    by (simp add: rng_ok_def)
  have n: "(1::int) \<le> 3"
    by simp
  show ?thesis
    using ok n divide_partition [OF ok n, of nat "[10, 20, 30, 40, 50 :: int]" 0]
    by blast
qed

text \<open>
  The claim as first stated asks for pairwise disjoint groups for every list.  A list
  in which an entity occurs twice is split into groups that share it.
\<close>

theorem divide_duplicates_counterexample:
  "rng_ok (\<lambda>n g. (g mod n, Suc g)) \<and>
   fst (divide_entities (\<lambda>n g. (g mod n, Suc g)) nat [''e'', ''e''] 2 0) = Inr [[''e''], [''e'']] \<and>
   set ([[''e''], [''e'']] ! 0) \<inter> set ([[''e''], [''e'']] ! 1) \<noteq> {}"
proof -
  have "rng_ok (\<lambda>n g. (g mod n, Suc g))"
    by (simp add: rng_ok_def)
  moreover have "fst (divide_entities (\<lambda>n g. (g mod n, Suc g)) nat [''e'', ''e''] 2 0)
      = Inr [[''e''], [''e'']]"
    by code_simp
  ultimately show ?thesis
    by simp
qed

section \<open>Properties of the store\<close>

subsection \<open>The triggers keep the indexes consistent\<close>

lemma find_SomeD: "find P xs = Some x \<Longrightarrow> x \<in> set xs \<and> P x"
  by (induction xs) (auto split: if_splits)

lemma find_NoneD: "find P xs = None \<Longrightarrow> x \<in> set xs \<Longrightarrow> \<not> P x"
  by (induction xs) (auto split: if_splits)

lemma image_mset_remove1:
  "x \<in> set xs \<Longrightarrow> image_mset f (mset xs - {#x#}) = image_mset f (mset xs) - {#f x#}"
  by (simp add: image_mset_Diff)

lemma distinct_map_remove1: "distinct (map f xs) \<Longrightarrow> distinct (map f (remove1 x xs))"
  by (induction xs) (auto simp: image_iff dest: notin_set_remove1)

lemma image_mset_replace_absent:
  "old \<notin> set xs \<Longrightarrow> image_mset (\<lambda>r. if r = old then new else r) (mset xs) = mset xs"
  by (induction xs) auto

lemma image_mset_replace:
  "distinct xs \<Longrightarrow> old \<in> set xs \<Longrightarrow>
   image_mset (\<lambda>r. if r = old then new else r) (mset xs) = add_mset new (mset xs - {#old#})"
proof (induction xs)
  case Nil
  then show ?case by simp
next
  case (Cons x xs)
  show ?case
  proof (cases "x = old")
    case True
    with Cons.prems have "old \<notin> set xs" by simp
    with True show ?thesis
      by (simp add: image_mset_replace_absent)
  next
    case False
    with Cons have "image_mset (\<lambda>r. if r = old then new else r) (mset xs) =
        add_mset new (mset xs - {#old#})"
      and "old \<in># mset xs"
      by simp_all
    with False show ?thesis
      by simp
  qed
qed

lemma image_mset_comp_replace:
  assumes "distinct xs" "old \<in> set xs"
  shows "image_mset (f \<circ> (\<lambda>r. if r = old then new else r)) (mset xs) =
         add_mset (f new) (image_mset f (mset xs) - {#f old#})"
proof -
  have "image_mset (f \<circ> (\<lambda>r. if r = old then new else r)) (mset xs) =
        image_mset f (image_mset (\<lambda>r. if r = old then new else r) (mset xs))"
    by (simp only: multiset.map_comp)
  also have "\<dots> = image_mset f (add_mset new (mset xs - {#old#}))"
    by (simp only: image_mset_replace [OF assms])
  also have "\<dots> = add_mset (f new) (image_mset f (mset xs - {#old#}))"
    by simp
  finally show ?thesis
    by (simp only: image_mset_remove1 [OF assms(2)])
qed

lemma distinct_map_replace:
  assumes "distinct (map f xs)" "old \<in> set xs" "f new \<notin> set (map f (remove1 old xs))"
  shows "distinct (map f (map (\<lambda>r. if r = old then new else r) xs))"
proof -
  have d: "distinct xs"
    using assms(1) by (simp add: distinct_map)
  have "mset (map f (map (\<lambda>r. if r = old then new else r) xs)) =
        mset (f new # map f (remove1 old xs))"
    by (simp add: image_mset_replace [OF d assms(2)] del: map_map)
  moreover have "distinct (f new # map f (remove1 old xs))"
    using assms(1,3) by (simp add: distinct_map_remove1)
  ultimately show ?thesis
    by (metis mset_eq_imp_distinct_iff)
qed

lemma insert_class_row_inv:
  assumes "insert_class_row r db = Inr db'" "fts_consistent db" "primary_keys_unique db"
  shows "fts_consistent db' \<and> primary_keys_unique db'"
  using assms
  by (auto simp: insert_class_row_def classes_ai_def fts_consistent_def primary_keys_unique_def
      split: if_splits)

lemma delete_class_row_inv:
  assumes "delete_class_row cid db = Inr db'" "fts_consistent db" "primary_keys_unique db"
  shows "fts_consistent db' \<and> primary_keys_unique db'"
proof (cases "find (\<lambda>r. c_id r = cid) (classes db)")
  case None
  with assms show ?thesis
    by (simp add: delete_class_row_def split: if_splits)
next
  case (Some old)
  then have old: "old \<in> set (classes db)"
    by (simp add: find_SomeD)
  from assms(1) Some have db': "db' = classes_ad old (db\<lparr>classes := remove1 old (classes db)\<rparr>)"
    by (simp add: delete_class_row_def split: if_splits)
  show ?thesis
    using assms(2,3) old
    by (simp add: db' classes_ad_def fts_consistent_def primary_keys_unique_def
        image_mset_remove1 distinct_map_remove1)
qed

lemma update_class_row_inv:
  assumes "update_class_row cid new db = Inr db'" "fts_consistent db" "primary_keys_unique db"
  shows "fts_consistent db' \<and> primary_keys_unique db'"
proof (cases "find (\<lambda>r. c_id r = cid) (classes db)")
  case None
  with assms show ?thesis
    by (simp add: update_class_row_def split: if_splits)
next
  case (Some old)
  then have old: "old \<in> set (classes db)"
    by (simp add: find_SomeD)
  have d: "distinct (classes db)"
    using assms(3) by (simp add: primary_keys_unique_def distinct_map)
  from assms(1) Some
  have db': "db' = classes_au old new
               (db\<lparr>classes := map (\<lambda>r. if r = old then new else r) (classes db)\<rparr>)"
    and fresh: "c_id new \<notin> set (map c_id (remove1 old (classes db)))"
    by (simp_all add: update_class_row_def Let_def split: if_splits)
  have "distinct (map c_id (map (\<lambda>r. if r = old then new else r) (classes db)))"
    using assms(3) old fresh by (intro distinct_map_replace) (simp_all add: primary_keys_unique_def)
  then show ?thesis
    using assms(2,3) old d
    by (simp add: db' classes_au_def Let_def fts_consistent_def primary_keys_unique_def
        image_mset_comp_replace)
qed

lemma insert_function_row_inv:
  assumes "insert_function_row r db = Inr db'" "fts_consistent db" "primary_keys_unique db"
  shows "fts_consistent db' \<and> primary_keys_unique db'"
  using assms
  by (auto simp: insert_function_row_def functions_ai_def fts_consistent_def
      primary_keys_unique_def split: if_splits)

lemma delete_function_row_inv:
  assumes "delete_function_row fid db = Inr db'" "fts_consistent db" "primary_keys_unique db"
  shows "fts_consistent db' \<and> primary_keys_unique db'"
proof (cases "find (\<lambda>r. f_id r = fid) (functions_tbl db)")
  case None
  with assms show ?thesis
    by (simp add: delete_function_row_def split: if_splits)
next
  case (Some old)
  then have old: "old \<in> set (functions_tbl db)"
    by (simp add: find_SomeD)
  from assms(1) Some
  have db': "db' = functions_ad old (db\<lparr>functions_tbl := remove1 old (functions_tbl db)\<rparr>)"
    by (simp add: delete_function_row_def split: if_splits)
  show ?thesis
    using assms(2,3) old
    by (simp add: db' functions_ad_def fts_consistent_def primary_keys_unique_def
        image_mset_remove1 distinct_map_remove1)
qed

lemma update_function_row_inv:
  assumes "update_function_row fid new db = Inr db'" "fts_consistent db" "primary_keys_unique db"
  shows "fts_consistent db' \<and> primary_keys_unique db'"
proof (cases "find (\<lambda>r. f_id r = fid) (functions_tbl db)")
  case None
  with assms show ?thesis
    by (simp add: update_function_row_def split: if_splits)
next
  case (Some old)
  then have old: "old \<in> set (functions_tbl db)"
    by (simp add: find_SomeD)
  have d: "distinct (functions_tbl db)"
    using assms(3) by (simp add: primary_keys_unique_def distinct_map)
  from assms(1) Some
  have db': "db' = functions_au old new
               (db\<lparr>functions_tbl := map (\<lambda>r. if r = old then new else r) (functions_tbl db)\<rparr>)"
    and fresh: "f_id new \<notin> set (map f_id (remove1 old (functions_tbl db)))"
    by (simp_all add: update_function_row_def Let_def split: if_splits)
  have "distinct (map f_id (map (\<lambda>r. if r = old then new else r) (functions_tbl db)))"
    using assms(3) old fresh by (intro distinct_map_replace) (simp_all add: primary_keys_unique_def)
  then show ?thesis
    using assms(2,3) old d
    by (simp add: db' functions_au_def Let_def fts_consistent_def primary_keys_unique_def
        image_mset_comp_replace)
qed

lemma execute_inv:
  assumes "execute s db = Inr db'" "plain s" "fts_consistent db" "primary_keys_unique db"
  shows "fts_consistent db' \<and> primary_keys_unique db'"
proof (cases s)
  case (InsertClass r)
  with assms show ?thesis using insert_class_row_inv [of r db db'] by simp
next
  case (DeleteClass cid)
  with assms show ?thesis using delete_class_row_inv [of cid db db'] by simp
next
  case (UpdateClass cid new)
  with assms show ?thesis using update_class_row_inv [of cid new db db'] by simp
next
  case (InsertOrReplaceClass r)
  with assms(2) show ?thesis by simp
next
  case (UpdateOrReplaceClass cid new)
  with assms(2) show ?thesis by simp
next
  case (InsertFunction r)
  with assms show ?thesis using insert_function_row_inv [of r db db'] by simp
next
  case (DeleteFunction fid)
  with assms show ?thesis using delete_function_row_inv [of fid db db'] by simp
next
  case (UpdateFunction fid new)
  with assms show ?thesis using update_function_row_inv [of fid new db db'] by simp
next
  case (InsertOrReplaceFunction r)
  with assms(2) show ?thesis by simp
next
  case (UpdateOrReplaceFunction fid new)
  with assms(2) show ?thesis by simp
qed

lemma run_inv:
  "list_all plain ss \<Longrightarrow> fts_consistent db \<Longrightarrow> primary_keys_unique db \<Longrightarrow>
   fts_consistent (run ss db) \<and> primary_keys_unique (run ss db)"
proof (induction ss arbitrary: db)
  case Nil
  then show ?case by simp
next
  case (Cons s ss)
  from Cons.prems(1) have ps: "plain s" and pss: "list_all plain ss"
    by simp_all
  show ?case
  proof (cases "execute s db")
    case (Inl e)
    with Cons.IH [OF pss Cons.prems(2,3)] show ?thesis by simp
  next
    case (Inr db')
    then have "fts_consistent db' \<and> primary_keys_unique db'"
      using ps Cons.prems(2,3) by (rule execute_inv)
    with Inr Cons.IH [OF pss, of db'] show ?thesis by simp
  qed
qed

lemma search_classes_set:
  assumes "fts_consistent db" "primary_keys_unique db"
  shows "set (search_classes tok t db) =
         {c \<in> set (classes db). classes_fts_match tok t (class_fts_entry c)}"
proof -
  have entries: "set (classes_fts db) = class_fts_entry ` set (classes db)"
    using assms(1) by (metis fts_consistent_def set_map set_mset_mset)
  have inj: "inj_on c_id (set (classes db))"
    using assms(2) by (simp add: primary_keys_unique_def distinct_map)
  have rowid: "cf_rowid (class_fts_entry c) = c_id c" for c
    by (simp add: class_fts_entry_def)
  show ?thesis
  proof (intro set_eqI iffI)
    fix c
    assume "c \<in> set (search_classes tok t db)"
    then obtain e where e: "e \<in> set (classes_fts db)" "classes_fts_match tok t e"
      and c: "c \<in> set (classes db)" "c_id c = cf_rowid e"
      by (auto simp: search_classes_def)
    from e(1) entries obtain c' where c': "c' \<in> set (classes db)" "e = class_fts_entry c'"
      by auto
    with c rowid have "c_id c = c_id c'" by simp
    with inj c(1) c'(1) have "c = c'" by (auto dest: inj_onD)
    with e(2) c' c(1) show "c \<in> {c \<in> set (classes db). classes_fts_match tok t (class_fts_entry c)}"
      by simp
  next
    fix c
    assume "c \<in> {c \<in> set (classes db). classes_fts_match tok t (class_fts_entry c)}"
    then have c: "c \<in> set (classes db)" "classes_fts_match tok t (class_fts_entry c)"
      by simp_all
    then have "class_fts_entry c \<in> set (classes_fts db)"
      using entries by simp
    with c rowid show "c \<in> set (search_classes tok t db)"
      by (auto simp: search_classes_def)
  qed
qed

lemma search_functions_set:
  assumes "fts_consistent db" "primary_keys_unique db"
  shows "set (search_functions tok t db) =
         {f \<in> set (functions_tbl db). functions_fts_match tok t (function_fts_entry f)}"
proof -
  have entries: "set (functions_fts db) = function_fts_entry ` set (functions_tbl db)"
    using assms(1) by (metis fts_consistent_def set_map set_mset_mset)
  have inj: "inj_on f_id (set (functions_tbl db))"
    using assms(2) by (simp add: primary_keys_unique_def distinct_map)
  have rowid: "ff_rowid (function_fts_entry f) = f_id f" for f
    by (simp add: function_fts_entry_def)
  show ?thesis
  proof (intro set_eqI iffI)
    fix f
    assume "f \<in> set (search_functions tok t db)"
    then obtain e where e: "e \<in> set (functions_fts db)" "functions_fts_match tok t e"
      and f: "f \<in> set (functions_tbl db)" "f_id f = ff_rowid e"
      by (auto simp: search_functions_def)
    from e(1) entries obtain f' where f': "f' \<in> set (functions_tbl db)" "e = function_fts_entry f'"
      by auto
    with f rowid have "f_id f = f_id f'" by simp
    with inj f(1) f'(1) have "f = f'" by (auto dest: inj_onD)
    with e(2) f' f(1)
    show "f \<in> {f \<in> set (functions_tbl db). functions_fts_match tok t (function_fts_entry f)}"
      by simp
  next
    fix f
    assume "f \<in> {f \<in> set (functions_tbl db). functions_fts_match tok t (function_fts_entry f)}"
    then have f: "f \<in> set (functions_tbl db)" "functions_fts_match tok t (function_fts_entry f)"
      by simp_all
    then have "function_fts_entry f \<in> set (functions_fts db)"
      using entries by simp
    with f rowid show "f \<in> set (search_functions tok t db)"
      by (auto simp: search_functions_def)
  qed
qed

lemma insert_class_row_member:
  "insert_class_row r db = Inr db' \<Longrightarrow> r \<in> set (classes db')"
  by (auto simp: insert_class_row_def classes_ai_def split: if_splits)

lemma delete_class_row_absent:
  assumes "delete_class_row cid db = Inr db'" "primary_keys_unique db"
  shows "cid \<notin> c_id ` set (classes db')"
proof (cases "find (\<lambda>r. c_id r = cid) (classes db)")
  case None
  then have "\<forall>x\<in>set (classes db). c_id x \<noteq> cid"
    by (auto dest: find_NoneD)
  moreover from assms(1) None have "db' = db"
    by (simp add: delete_class_row_def split: if_splits)
  ultimately show ?thesis by auto
next
  case (Some old)
  then have old: "old \<in> set (classes db)" "c_id old = cid"
    using find_SomeD [of "\<lambda>r. c_id r = cid" "classes db" old] by simp_all
  from assms(1) Some have "db' = classes_ad old (db\<lparr>classes := remove1 old (classes db)\<rparr>)"
    by (simp add: delete_class_row_def split: if_splits)
  then have db': "classes db' = remove1 old (classes db)"
    by (simp add: classes_ad_def)
  have d: "distinct (classes db)" and inj: "inj_on c_id (set (classes db))"
    using assms(2) by (simp_all add: primary_keys_unique_def distinct_map)
  show ?thesis
  proof
    assume "cid \<in> c_id ` set (classes db')"
    then obtain x where x: "x \<in> set (remove1 old (classes db))" "c_id x = cid"
      using db' by auto
    with d have "x \<in> set (classes db)" "x \<noteq> old"
      by simp_all
    with inj old x(2) show False
      by (auto dest: inj_onD)
  qed
qed

subsection \<open>Ingestion\<close>

lemma create_result:
  "create json_data c fs =
     (let c2 = c\<lparr>conn := new_database\<lparr>tables_exist := True\<rparr>\<rparr>;
          fs2 = fs(db_path c \<mapsto> new_database\<lparr>tables_exist := True\<rparr>)
      in case process_module json_data c2 of
           (Inl e, c') \<Rightarrow> (Inl e, c'\<lparr>conn := connect (db_path c) fs2\<rparr>, fs2)
         | (Inr u, c') \<Rightarrow>
             (Inr (), c'\<lparr>conn := connect (db_path c) (commit c' fs2)\<rparr>, commit c' fs2))"
  by (auto simp: create_def create_schema_def populate_database_def commit_def connect_def
      Let_def split: prod.splits sum.splits)

text \<open>
  Claim C7, as amended.  When anything raises while \<open>create\<close> populates the database
  (a duplicate module name or qualified name among them), \<open>create\<close> ends with a
  database file that holds the schema and no row at all, and with every other file as
  it was: the rows inserted before the failure were in the pending transaction only,
  which closing the connection in the \<open>finally\<close> clause drops.
\<close>

theorem ingestion_all_or_nothing:
  "create json_data c fs = (Inl e, c', fs') \<longrightarrow>
      fs' (db_path c) = Some (new_database\<lparr>tables_exist := True\<rparr>) \<and>
      conn c' = new_database\<lparr>tables_exist := True\<rparr> \<and>
      (\<forall>p. p \<noteq> db_path c \<longrightarrow> fs' p = fs p)"
  by (auto simp: create_result connect_def Let_def split: prod.splits sum.splits)

theorem ingestion_all_or_nothing_witness:
  "create example_duplicate_doc example_creator Map.empty =
     (Inl (IntegrityError ''UNIQUE constraint failed: modules.name''),
      snd (create example_duplicate_doc example_creator Map.empty)) \<and>
   modules (conn (snd (process_module example_duplicate_doc example_connected))) =
     [\<lparr>m_id = 1, m_name = ''m'', m_docstring = None\<rparr>] \<and>
   snd (snd (create example_duplicate_doc example_creator Map.empty)) (db_path example_creator) =
     Some (new_database\<lparr>tables_exist := True\<rparr>) \<and>
   conn (fst (snd (create example_duplicate_doc example_creator Map.empty))) =
     new_database\<lparr>tables_exist := True\<rparr> \<and>
   modules (new_database\<lparr>tables_exist := True\<rparr>) = []"
proof -
  have r: "fst (create example_duplicate_doc example_creator Map.empty) =
      Inl (IntegrityError ''UNIQUE constraint failed: modules.name'')"
    by code_simp
  then have c: "create example_duplicate_doc example_creator Map.empty =
     (Inl (IntegrityError ''UNIQUE constraint failed: modules.name''),
      fst (snd (create example_duplicate_doc example_creator Map.empty)),
      snd (snd (create example_duplicate_doc example_creator Map.empty)))"
    by (metis prod.collapse)
  have m: "modules (conn (snd (process_module example_duplicate_doc example_connected))) =
     [\<lparr>m_id = 1, m_name = ''m'', m_docstring = None\<rparr>]"
    by code_simp
  have e: "modules (new_database\<lparr>tables_exist := True\<rparr>) = []"
    by (simp add: new_database_def)
  note th = ingestion_all_or_nothing [of example_duplicate_doc example_creator Map.empty
      "IntegrityError ''UNIQUE constraint failed: modules.name''"
      "fst (snd (create example_duplicate_doc example_creator Map.empty))"
      "snd (snd (create example_duplicate_doc example_creator Map.empty))", THEN mp, OF c]
  from th have f: "snd (snd (create example_duplicate_doc example_creator Map.empty))
        (db_path example_creator) = Some (new_database\<lparr>tables_exist := True\<rparr>)"
    by (rule conjunct1)
  from th have g: "conn (fst (snd (create example_duplicate_doc example_creator Map.empty))) =
     new_database\<lparr>tables_exist := True\<rparr>"
    by (rule conjunct2 [THEN conjunct1])
  from c m f g e show ?thesis
    by simp
qed

text \<open>
  The claim as first stated has the transaction aborted wherever the failure occurs
  during populate.  \<open>populate_database\<close> itself only skips its commit: after the
  failure on the duplicate module name its connection still holds the module and the
  class inserted before, and a commit on that connection publishes them.
\<close>

theorem populate_database_partial_rows_counterexample:
  "fst (populate_database example_duplicate_doc example_connected
          (snd (create_schema example_creator Map.empty))) =
     Inl (IntegrityError ''UNIQUE constraint failed: modules.name'') \<and>
   map m_name (modules (conn (fst (snd (populate_database example_duplicate_doc example_connected
          (snd (create_schema example_creator Map.empty))))))) = [''m''] \<and>
   map c_full_qualified_name (classes (conn (fst (snd (populate_database example_duplicate_doc
          example_connected (snd (create_schema example_creator Map.empty))))))) = [''m.C''] \<and>
   map_option (\<lambda>db. map m_name (modules db))
     (commit (fst (snd (populate_database example_duplicate_doc example_connected
                (snd (create_schema example_creator Map.empty)))))
             (snd (snd (populate_database example_duplicate_doc example_connected
                (snd (create_schema example_creator Map.empty))))) ''api.db'') = Some [''m'']"
  by code_simp

lemma insert_module_db_path: "insert_module m c = (r, c') \<Longrightarrow> db_path c' = db_path c"
  by (auto simp: insert_module_def split: sum.splits prod.splits)

lemma insert_parameters_db_path:
  "insert_parameters fid pos ps c = (r, c') \<Longrightarrow> db_path c' = db_path c"
  by (induction ps arbitrary: pos c) (auto split: sum.splits)

lemma insert_function_db_path:
  "insert_function fd mid cid c = (r, c') \<Longrightarrow> db_path c' = db_path c"
  by (auto simp: insert_function_def split: sum.splits prod.splits
      dest: insert_parameters_db_path)

lemma insert_functions_db_path:
  "insert_functions fds mid cid c = (r, c') \<Longrightarrow> db_path c' = db_path c"
  by (induction fds arbitrary: c) (auto split: sum.splits prod.splits dest: insert_function_db_path)

lemma insert_bases_db_path: "insert_bases cid bs c = (r, c') \<Longrightarrow> db_path c' = db_path c"
  by (induction bs arbitrary: c) (auto split: sum.splits)

lemma insert_class_db_path:
  assumes "insert_class cd mid c = (r, c')"
  shows "db_path c' = db_path c"
proof (cases "insert_into_classes (cd_name cd) (cd_qualified_name cd) (cd_docstring cd) mid (conn c)")
  case (Inl e)
  with assms show ?thesis
    by (simp add: insert_class_def)
next
  case (Inr p)
  obtain class_id db' where p: "p = (class_id, db')"
    by (cases p)
  let ?c1 = "c\<lparr>conn := db', class_ids := AList.update (cd_qualified_name cd) class_id (class_ids c)\<rparr>"
  obtain r2 c2 where b: "insert_bases class_id (cd_bases cd) ?c1 = (r2, c2)"
    by (cases "insert_bases class_id (cd_bases cd) ?c1")
  have d2: "db_path c2 = db_path c"
    using insert_bases_db_path [OF b] by simp
  show ?thesis
  proof (cases r2)
    case (Inl e)
    with assms Inr p b d2 show ?thesis
      by (simp add: insert_class_def)
  next
    case (Inr u)
    with assms \<open>insert_into_classes _ _ _ _ _ = Inr p\<close> p b
    have "insert_functions (cd_methods cd) mid (Some class_id) c2 = (r, c')"
      by (simp add: insert_class_def)
    then have "db_path c' = db_path c2"
      by (rule insert_functions_db_path)
    with d2 show ?thesis by simp
  qed
qed

lemma insert_classes_db_path: "insert_classes cds mid c = (r, c') \<Longrightarrow> db_path c' = db_path c"
  by (induction cds arbitrary: c) (auto split: sum.splits prod.splits dest: insert_class_db_path)

lemma process_module_db_path:
  "process_module m c = (r, c') \<Longrightarrow> db_path c' = db_path c"
  "process_submodules ms c = (r, c') \<Longrightarrow> db_path c' = db_path c"
proof (induction m c and ms c arbitrary: r c' and r c' rule: process_module_process_submodules.induct)
  case (1 name docstring cls funs subs c)
  show ?case
  proof (cases "insert_module (ModuleDoc name docstring cls funs subs) c")
    case (Pair r1 c1)
    note p1 = insert_module_db_path [OF Pair]
    show ?thesis
    proof (cases r1)
      case (Inl e)
      with "1.prems" Pair p1 show ?thesis by simp
    next
      case (Inr module_id)
      show ?thesis
      proof (cases "insert_classes cls module_id c1")
        case p2: (Pair r2 c2)
        note d2 = insert_classes_db_path [OF p2]
        show ?thesis
        proof (cases r2)
          case (Inl e)
          with "1.prems" Pair \<open>r1 = Inr module_id\<close> p2 p1 d2 show ?thesis by simp
        next
          case i2: (Inr u2)
          show ?thesis
          proof (cases "insert_functions funs module_id None c2")
            case p3: (Pair r3 c3)
            note d3 = insert_functions_db_path [OF p3]
            show ?thesis
            proof (cases r3)
              case (Inl e)
              with "1.prems" Pair \<open>r1 = Inr module_id\<close> p2 i2 p3 p1 d2 d3 show ?thesis by simp
            next
              case i3: (Inr u3)
              have "process_submodules subs c3 = (r, c')"
                using "1.prems" Pair \<open>r1 = Inr module_id\<close> p2 i2 p3 i3 by simp
              then have "db_path c' = db_path c3"
                by (rule "1.IH" [OF Pair [symmetric] \<open>r1 = Inr module_id\<close> p2 [symmetric] i2
                      p3 [symmetric] i3])
              with p1 d2 d3 show ?thesis by simp
            qed
          qed
        qed
      qed
    qed
  qed
next
  case (2 c)
  then show ?case by simp
next
  case (3 submodule_data rest c)
  show ?case
  proof (cases "process_module submodule_data c")
    case (Pair r1 c1)
    then have d1: "db_path c1 = db_path c"
      by (rule "3.IH"(1))
    show ?thesis
    proof (cases r1)
      case (Inl e)
      with "3.prems" Pair d1 show ?thesis by simp
    next
      case (Inr u)
      with "3.prems" Pair have "process_submodules rest c1 = (r, c')" by simp
      then have "db_path c' = db_path c1"
        by (rule "3.IH"(2) [OF Pair [symmetric] Inr])
      with d1 show ?thesis by simp
    qed
  qed
qed

text \<open>
  Claim C9.  \<open>create\<close> removes a file it finds at the database path before it connects:
  a call made with any database at that path ends exactly as the call made with no file
  there (same result, same object, same files), and the file it leaves holds the schema
  and the rows of the document alone.
\<close>

theorem create_replaces_existing_file:
  "create json_data c (fs(db_path c \<mapsto> old)) = create json_data c (fs(db_path c := None)) \<and>
   snd (snd (create json_data c fs)) (db_path c) =
     Some (case process_module json_data (c\<lparr>conn := new_database\<lparr>tables_exist := True\<rparr>\<rparr>) of
             (Inl e, c') \<Rightarrow> new_database\<lparr>tables_exist := True\<rparr>
           | (Inr u, c') \<Rightarrow> conn c')"
proof -
  let ?c2 = "c\<lparr>conn := new_database\<lparr>tables_exist := True\<rparr>\<rparr>"
  have same: "fs(db_path c \<mapsto> old, db_path c := None) = fs(db_path c := None)"
    by simp
  have first: "create json_data c (fs(db_path c \<mapsto> old)) = create json_data c (fs(db_path c := None))"
    by (simp add: create_def same)
  obtain r c' where p: "process_module json_data ?c2 = (r, c')"
    by (cases "process_module json_data ?c2")
  then have "db_path c' = db_path c"
    using process_module_db_path(1) [OF p] by simp
  with p have "snd (snd (create json_data c fs)) (db_path c) =
     Some (case process_module json_data ?c2 of
             (Inl e, c') \<Rightarrow> new_database\<lparr>tables_exist := True\<rparr>
           | (Inr u, c') \<Rightarrow> conn c')"
    by (cases r) (simp_all add: create_result commit_def Let_def)
  with first show ?thesis
    by simp
qed

theorem create_replaces_existing_file_witness:
  "create example_module_doc example_creator (Map.empty(db_path example_creator \<mapsto> example_store)) =
     create example_module_doc example_creator (Map.empty(db_path example_creator := None)) \<and>
   map_option modules
     (snd (snd (create example_module_doc example_creator (Map.empty(''api.db'' \<mapsto> example_store))))
        ''api.db'') =
     Some [\<lparr>m_id = 1, m_name = ''m'', m_docstring = None\<rparr>]"
proof -
  have "map_option modules
     (snd (snd (create example_module_doc example_creator (Map.empty(''api.db'' \<mapsto> example_store))))
        ''api.db'') =
     Some [\<lparr>m_id = 1, m_name = ''m'', m_docstring = None\<rparr>]"
    by code_simp
  then show ?thesis
    by (rule conjI [OF create_replaces_existing_file
          [of example_module_doc example_creator Map.empty example_store, THEN conjunct1]])
qed

subsection \<open>Inheritance rows\<close>

lemma insert_bases_rows:
  "insert_bases class_id bs c = (Inr u, c') \<Longrightarrow>
   class_inheritance (conn c') =
     class_inheritance (conn c) @ map (\<lambda>b. \<lparr>i_class_id = class_id, i_base_class_name = b\<rparr>) bs"
proof (induction bs arbitrary: c)
  case Nil
  then show ?case by simp
next
  case (Cons b bs)
  from Cons.prems obtain db' where
    ins: "insert_into_class_inheritance class_id b (conn c) = Inr db'"
    and rest: "insert_bases class_id bs (c\<lparr>conn := db'\<rparr>) = (Inr u, c')"
    by (auto split: sum.splits)
  from ins have "class_inheritance db' =
      class_inheritance (conn c) @ [\<lparr>i_class_id = class_id, i_base_class_name = b\<rparr>]"
    by (auto simp: insert_into_class_inheritance_def Let_def split: if_splits)
  with Cons.IH [OF rest] show ?case
    by simp
qed

lemma insert_parameters_inheritance:
  "insert_parameters fid pos ps c = (r, c') \<Longrightarrow>
   class_inheritance (conn c') = class_inheritance (conn c)"
  by (induction ps arbitrary: pos c)
    (auto simp: insert_into_parameters_def Let_def split: sum.splits if_splits)

lemma insert_function_row_inheritance:
  "insert_function_row row db = Inr db' \<Longrightarrow> class_inheritance db' = class_inheritance db"
  by (auto simp: insert_function_row_def functions_ai_def split: if_splits)

lemma insert_function_inheritance:
  assumes "insert_function fd mid cid c = (r, c')"
  shows "class_inheritance (conn c') = class_inheritance (conn c)"
proof -
  let ?row = "\<lparr>f_id = 0, f_name = fd_name fd,
              f_full_qualified_name = fd_qualified_name fd,
              f_signature_string = fd_signature_string fd,
              f_docstring = fd_docstring fd,
              f_return_annotation = fd_return_annotation fd,
              f_is_async = (if fd_is_async fd then 1 else 0),
              f_is_classmethod = (if fd_is_classmethod fd then 1 else 0),
              f_is_staticmethod = (if fd_is_staticmethod fd then 1 else 0),
              f_class_id = cid, f_module_id = mid\<rparr>"
  show ?thesis
  proof (cases "insert_into_functions ?row (conn c)")
    case (Inl e)
    with assms show ?thesis
      by (simp add: insert_function_def)
  next
    case (Inr p)
    obtain fid db' where p: "p = (fid, db')"
      by (cases p)
    from Inr p have "class_inheritance db' = class_inheritance (conn c)"
      by (auto simp: insert_into_functions_def Let_def split: sum.splits
          dest: insert_function_row_inheritance)
    moreover from assms Inr p
    have "insert_parameters fid 0 (fd_parameters fd) (c\<lparr>conn := db'\<rparr>) = (r, c')"
      by (simp add: insert_function_def)
    then have "class_inheritance (conn c') = class_inheritance (conn (c\<lparr>conn := db'\<rparr>))"
      by (rule insert_parameters_inheritance)
    ultimately show ?thesis by simp
  qed
qed

lemma insert_functions_inheritance:
  "insert_functions fds mid cid c = (r, c') \<Longrightarrow>
   class_inheritance (conn c') = class_inheritance (conn c)"
proof (induction fds arbitrary: c)
  case Nil
  then show ?case by simp
next
  case (Cons fd fds)
  obtain r1 c1 where f: "insert_function fd mid cid c = (r1, c1)"
    by (cases "insert_function fd mid cid c")
  note d1 = insert_function_inheritance [OF f]
  show ?case
  proof (cases r1)
    case (Inl e)
    with Cons.prems f d1 show ?thesis by simp
  next
    case (Inr u)
    with Cons.prems f have "insert_functions fds mid cid c1 = (r, c')" by simp
    from Cons.IH [OF this] d1 show ?thesis by simp
  qed
qed

text \<open>
  Claim C2, as amended.  When \<open>insert_class\<close> succeeds, the rows it adds to
  \<open>class_inheritance\<close> are one per entry of the \<open>bases\<close> list, in order, each with the
  key of the new class; \<open>object\<close> is a base like any other.
\<close>

theorem insert_class_inheritance_rows:
  assumes "insert_class class_data module_id c = (Inr u, c')"
  shows "class_inheritance (conn c') =
           class_inheritance (conn c) @
           map (\<lambda>b. \<lparr>i_class_id = next_rowid (seq_classes (conn c)) (map c_id (classes (conn c))),
                      i_base_class_name = b\<rparr>)
               (cd_bases class_data)"
proof (cases "insert_into_classes (cd_name class_data) (cd_qualified_name class_data)
                (cd_docstring class_data) module_id (conn c)")
  case (Inl e)
  with assms show ?thesis
    by (simp add: insert_class_def)
next
  case (Inr p)
  obtain class_id db' where p: "p = (class_id, db')"
    by (cases p)
  from Inr p have cid: "class_id = next_rowid (seq_classes (conn c)) (map c_id (classes (conn c)))"
    and same: "class_inheritance db' = class_inheritance (conn c)"
    by (auto simp: insert_into_classes_def insert_class_row_def classes_ai_def Let_def
        split: sum.splits if_splits)
  let ?c1 = "c\<lparr>conn := db',
               class_ids := AList.update (cd_qualified_name class_data) class_id (class_ids c)\<rparr>"
  obtain r2 c2 where b: "insert_bases class_id (cd_bases class_data) ?c1 = (r2, c2)"
    by (cases "insert_bases class_id (cd_bases class_data) ?c1")
  show ?thesis
  proof (cases r2)
    case (Inl e)
    with assms Inr p b show ?thesis
      by (simp add: insert_class_def)
  next
    case r2: (Inr u2)
    with assms Inr p b
    have m: "insert_functions (cd_methods class_data) module_id (Some class_id) c2 = (Inr u, c')"
      by (simp add: insert_class_def)
    from b r2 have "class_inheritance (conn c2) =
        class_inheritance (conn ?c1) @
        map (\<lambda>b. \<lparr>i_class_id = class_id, i_base_class_name = b\<rparr>) (cd_bases class_data)"
      by (simp add: insert_bases_rows)
    with insert_functions_inheritance [OF m] same cid show ?thesis
      by simp
  qed
qed

theorem insert_class_inheritance_rows_witness:
  "insert_class example_class_doc 1
      (snd (insert_module (ModuleDoc ''m'' None [] [] []) example_connected)) =
     (Inr (), snd (insert_class example_class_doc 1
                    (snd (insert_module (ModuleDoc ''m'' None [] [] []) example_connected)))) \<and>
   class_inheritance (conn (snd (insert_class example_class_doc 1
      (snd (insert_module (ModuleDoc ''m'' None [] [] []) example_connected))))) =
     class_inheritance (conn (snd (insert_module (ModuleDoc ''m'' None [] [] []) example_connected))) @
     map (\<lambda>b. \<lparr>i_class_id = next_rowid
                    (seq_classes (conn (snd (insert_module (ModuleDoc ''m'' None [] [] []) example_connected))))
                    (map c_id (classes (conn (snd (insert_module (ModuleDoc ''m'' None [] [] []) example_connected))))),
                i_base_class_name = b\<rparr>)
         (cd_bases example_class_doc)"
proof -
  let ?c = "snd (insert_module (ModuleDoc ''m'' None [] [] []) example_connected)"
  have "fst (insert_class example_class_doc 1 ?c) = Inr ()"
    by code_simp
  then have h: "insert_class example_class_doc 1 ?c = (Inr (), snd (insert_class example_class_doc 1 ?c))"
    by (metis prod.collapse)
  show ?thesis
    by (rule conjI [OF h insert_class_inheritance_rows [OF h]])
qed

text \<open>
  The claim as first stated has \<open>object\<close> skipped.  \<open>insert_class\<close> has no such test:
  a class whose bases are \<open>["object"]\<close> gets one row.
\<close>

theorem insert_class_object_counterexample:
  "fst (insert_class example_class_doc 1
          (snd (insert_module (ModuleDoc ''m'' None [] [] []) example_connected))) = Inr () \<and>
   class_inheritance (conn (snd (insert_class example_class_doc 1
          (snd (insert_module (ModuleDoc ''m'' None [] [] []) example_connected))))) =
     [\<lparr>i_class_id = 1, i_base_class_name = ''object''\<rparr>]"
  by code_simp

subsection \<open>The module rows\<close>

text \<open>
  Claim C1 evaluated on the code: after \<open>create_schema\<close> and \<open>insert_module\<close> for
  \<open>pkg.a\<close> and \<open>pkg.b\<close> the table holds the two rows, but its columns are \<open>id\<close>,
  \<open>name\<close> and \<open>docstring\<close> only, and the query by \<open>root_module\<close> raises.
\<close>

theorem module_rows_have_no_root_module:
  "map m_name (modules (conn (snd (insert_module example_pkg_b
        (snd (insert_module example_pkg_a example_connected)))))) = [''pkg.a'', ''pkg.b''] \<and>
   map fst modules_columns = [''id'', ''name'', ''docstring''] \<and>
   select_name_from_modules_where ''root_module'' (Text ''pkg'')
       (conn (snd (insert_module example_pkg_b
          (snd (insert_module example_pkg_a example_connected))))) =
     Inl (OperationalError ''no such column: root_module'')"
  by code_simp

subsection \<open>Ingestion keeps the indexes consistent\<close>

lemma insert_into_modules_inv:
  "insert_into_modules name doc db = Inr (rowid, db') \<Longrightarrow>
   fts_consistent db \<and> primary_keys_unique db \<Longrightarrow>
   fts_consistent db' \<and> primary_keys_unique db'"
  by (auto simp: insert_into_modules_def Let_def fts_consistent_def primary_keys_unique_def
      split: if_splits)

lemma insert_into_class_inheritance_inv:
  "insert_into_class_inheritance cid b db = Inr db' \<Longrightarrow>
   fts_consistent db \<and> primary_keys_unique db \<Longrightarrow>
   fts_consistent db' \<and> primary_keys_unique db'"
  by (auto simp: insert_into_class_inheritance_def Let_def fts_consistent_def
      primary_keys_unique_def split: if_splits)

lemma insert_into_parameters_inv:
  "insert_into_parameters row db = Inr db' \<Longrightarrow>
   fts_consistent db \<and> primary_keys_unique db \<Longrightarrow>
   fts_consistent db' \<and> primary_keys_unique db'"
  by (auto simp: insert_into_parameters_def Let_def fts_consistent_def
      primary_keys_unique_def split: if_splits)

lemma insert_into_classes_inv:
  assumes "insert_into_classes name qn doc mid db = Inr (rowid, db')"
    and "fts_consistent db \<and> primary_keys_unique db"
  shows "fts_consistent db' \<and> primary_keys_unique db'"
proof -
  from assms(1) obtain row where "insert_class_row row db = Inr db'"
    by (auto simp: insert_into_classes_def Let_def split: sum.splits)
  then show ?thesis
    using assms(2) insert_class_row_inv by blast
qed

lemma insert_into_functions_inv:
  assumes "insert_into_functions row db = Inr (rowid, db')"
    and "fts_consistent db \<and> primary_keys_unique db"
  shows "fts_consistent db' \<and> primary_keys_unique db'"
proof -
  from assms(1) obtain row' where "insert_function_row row' db = Inr db'"
    by (auto simp: insert_into_functions_def Let_def split: sum.splits)
  then show ?thesis
    using assms(2) insert_function_row_inv by blast
qed

lemma insert_module_inv:
  assumes "insert_module m c = (r, c')" and "fts_consistent (conn c) \<and> primary_keys_unique (conn c)"
  shows "fts_consistent (conn c') \<and> primary_keys_unique (conn c')"
proof (cases "insert_into_modules (md_name m) (md_docstring m) (conn c)")
  case (Inl e)
  with assms show ?thesis
    by (simp add: insert_module_def)
next
  case (Inr p)
  obtain rowid db' where p: "p = (rowid, db')"
    by (cases p)
  with Inr assms(1) have "conn c' = db'"
    by (auto simp: insert_module_def)
  with insert_into_modules_inv [OF Inr [unfolded p] assms(2)] show ?thesis
    by simp
qed

lemma insert_parameters_inv:
  "insert_parameters fid pos ps c = (r, c') \<Longrightarrow>
   fts_consistent (conn c) \<and> primary_keys_unique (conn c) \<Longrightarrow>
   fts_consistent (conn c') \<and> primary_keys_unique (conn c')"
proof (induction ps arbitrary: pos c)
  case Nil
  then show ?case by simp
next
  case (Cons p ps)
  let ?row = "\<lparr>p_id = 0, p_function_id = fid, p_name = pd_name p,
              p_kind = pd_kind p, p_annotation = pd_annotation p,
              p_default_value = pd_default p, p_position = pos\<rparr>"
  show ?case
  proof (cases "insert_into_parameters ?row (conn c)")
    case (Inl e)
    with Cons.prems show ?thesis by simp
  next
    case (Inr db')
    with Cons.prems(1) have "insert_parameters fid (pos + 1) ps (c\<lparr>conn := db'\<rparr>) = (r, c')"
      by simp
    moreover have "fts_consistent (conn (c\<lparr>conn := db'\<rparr>)) \<and> primary_keys_unique (conn (c\<lparr>conn := db'\<rparr>))"
      using insert_into_parameters_inv [OF Inr Cons.prems(2)] by simp
    ultimately show ?thesis
      by (rule Cons.IH)
  qed
qed

lemma insert_function_inv:
  assumes "insert_function fd mid cid c = (r, c')"
    and "fts_consistent (conn c) \<and> primary_keys_unique (conn c)"
  shows "fts_consistent (conn c') \<and> primary_keys_unique (conn c')"
proof -
  let ?row = "\<lparr>f_id = 0, f_name = fd_name fd,
              f_full_qualified_name = fd_qualified_name fd,
              f_signature_string = fd_signature_string fd,
              f_docstring = fd_docstring fd,
              f_return_annotation = fd_return_annotation fd,
              f_is_async = (if fd_is_async fd then 1 else 0),
              f_is_classmethod = (if fd_is_classmethod fd then 1 else 0),
              f_is_staticmethod = (if fd_is_staticmethod fd then 1 else 0),
              f_class_id = cid, f_module_id = mid\<rparr>"
  show ?thesis
  proof (cases "insert_into_functions ?row (conn c)")
    case (Inl e)
    with assms show ?thesis
      by (simp add: insert_function_def)
  next
    case (Inr p)
    obtain fid db' where p: "p = (fid, db')"
      by (cases p)
    from assms(1) Inr p
    have "insert_parameters fid 0 (fd_parameters fd) (c\<lparr>conn := db'\<rparr>) = (r, c')"
      by (simp add: insert_function_def)
    moreover have "fts_consistent (conn (c\<lparr>conn := db'\<rparr>)) \<and> primary_keys_unique (conn (c\<lparr>conn := db'\<rparr>))"
      using insert_into_functions_inv [OF Inr [unfolded p] assms(2)] by simp
    ultimately show ?thesis
      by (rule insert_parameters_inv)
  qed
qed

lemma insert_functions_inv:
  "insert_functions fds mid cid c = (r, c') \<Longrightarrow>
   fts_consistent (conn c) \<and> primary_keys_unique (conn c) \<Longrightarrow>
   fts_consistent (conn c') \<and> primary_keys_unique (conn c')"
proof (induction fds arbitrary: c)
  case Nil
  then show ?case by simp
next
  case (Cons fd fds)
  obtain r1 c1 where f: "insert_function fd mid cid c = (r1, c1)"
    by (cases "insert_function fd mid cid c")
  note i1 = insert_function_inv [OF f Cons.prems(2)]
  show ?case
  proof (cases r1)
    case (Inl e)
    with Cons.prems(1) f i1 show ?thesis by simp
  next
    case (Inr u)
    with Cons.prems(1) f have "insert_functions fds mid cid c1 = (r, c')" by simp
    then show ?thesis using i1 by (rule Cons.IH)
  qed
qed

lemma insert_bases_inv:
  "insert_bases cid bs c = (r, c') \<Longrightarrow>
   fts_consistent (conn c) \<and> primary_keys_unique (conn c) \<Longrightarrow>
   fts_consistent (conn c') \<and> primary_keys_unique (conn c')"
proof (induction bs arbitrary: c)
  case Nil
  then show ?case by simp
next
  case (Cons b bs)
  show ?case
  proof (cases "insert_into_class_inheritance cid b (conn c)")
    case (Inl e)
    with Cons.prems show ?thesis by simp
  next
    case (Inr db')
    with Cons.prems(1) have "insert_bases cid bs (c\<lparr>conn := db'\<rparr>) = (r, c')"
      by simp
    moreover have "fts_consistent (conn (c\<lparr>conn := db'\<rparr>)) \<and> primary_keys_unique (conn (c\<lparr>conn := db'\<rparr>))"
      using insert_into_class_inheritance_inv [OF Inr Cons.prems(2)] by simp
    ultimately show ?thesis
      by (rule Cons.IH)
  qed
qed

lemma insert_class_inv:
  assumes "insert_class cd mid c = (r, c')"
    and "fts_consistent (conn c) \<and> primary_keys_unique (conn c)"
  shows "fts_consistent (conn c') \<and> primary_keys_unique (conn c')"
proof (cases "insert_into_classes (cd_name cd) (cd_qualified_name cd) (cd_docstring cd) mid (conn c)")
  case (Inl e)
  with assms show ?thesis
    by (simp add: insert_class_def)
next
  case (Inr p)
  obtain class_id db' where p: "p = (class_id, db')"
    by (cases p)
  let ?c1 = "c\<lparr>conn := db', class_ids := AList.update (cd_qualified_name cd) class_id (class_ids c)\<rparr>"
  have i1: "fts_consistent (conn ?c1) \<and> primary_keys_unique (conn ?c1)"
    using insert_into_classes_inv [OF Inr [unfolded p] assms(2)] by simp
  obtain r2 c2 where b: "insert_bases class_id (cd_bases cd) ?c1 = (r2, c2)"
    by (cases "insert_bases class_id (cd_bases cd) ?c1")
  note i2 = insert_bases_inv [OF b i1]
  show ?thesis
  proof (cases r2)
    case (Inl e)
    with assms(1) Inr p b i2 show ?thesis
      by (simp add: insert_class_def)
  next
    case r2: (Inr u)
    with assms(1) Inr p b
    have "insert_functions (cd_methods cd) mid (Some class_id) c2 = (r, c')"
      by (simp add: insert_class_def)
    then show ?thesis
      using i2 by (rule insert_functions_inv)
  qed
qed

lemma insert_classes_inv:
  "insert_classes cds mid c = (r, c') \<Longrightarrow>
   fts_consistent (conn c) \<and> primary_keys_unique (conn c) \<Longrightarrow>
   fts_consistent (conn c') \<and> primary_keys_unique (conn c')"
proof (induction cds arbitrary: c)
  case Nil
  then show ?case by simp
next
  case (Cons cd cds)
  obtain r1 c1 where f: "insert_class cd mid c = (r1, c1)"
    by (cases "insert_class cd mid c")
  note i1 = insert_class_inv [OF f Cons.prems(2)]
  show ?case
  proof (cases r1)
    case (Inl e)
    with Cons.prems(1) f i1 show ?thesis by simp
  next
    case (Inr u)
    with Cons.prems(1) f have "insert_classes cds mid c1 = (r, c')" by simp
    then show ?thesis using i1 by (rule Cons.IH)
  qed
qed

lemma process_module_inv:
  "process_module m c = (r, c') \<Longrightarrow> fts_consistent (conn c) \<and> primary_keys_unique (conn c) \<Longrightarrow>
     fts_consistent (conn c') \<and> primary_keys_unique (conn c')"
  "process_submodules ms c = (r, c') \<Longrightarrow> fts_consistent (conn c) \<and> primary_keys_unique (conn c) \<Longrightarrow>
     fts_consistent (conn c') \<and> primary_keys_unique (conn c')"
proof (induction m c and ms c arbitrary: r c' and r c' rule: process_module_process_submodules.induct)
  case (1 name docstring cls funs subs c)
  obtain r1 c1 where p1: "insert_module (ModuleDoc name docstring cls funs subs) c = (r1, c1)"
    by (cases "insert_module (ModuleDoc name docstring cls funs subs) c")
  note i1 = insert_module_inv [OF p1 "1.prems"(2)]
  show ?case
  proof (cases r1)
    case (Inl e)
    with "1.prems"(1) p1 i1 show ?thesis by simp
  next
    case r1: (Inr module_id)
    obtain r2 c2 where p2: "insert_classes cls module_id c1 = (r2, c2)"
      by (cases "insert_classes cls module_id c1")
    note i2 = insert_classes_inv [OF p2 i1]
    show ?thesis
    proof (cases r2)
      case (Inl e)
      with "1.prems"(1) p1 r1 p2 i2 show ?thesis by simp
    next
      case r2: (Inr u2)
      obtain r3 c3 where p3: "insert_functions funs module_id None c2 = (r3, c3)"
        by (cases "insert_functions funs module_id None c2")
      note i3 = insert_functions_inv [OF p3 i2]
      show ?thesis
      proof (cases r3)
        case (Inl e)
        with "1.prems"(1) p1 r1 p2 r2 p3 i3 show ?thesis by simp
      next
        case r3: (Inr u3)
        have "process_submodules subs c3 = (r, c')"
          using "1.prems"(1) p1 r1 p2 r2 p3 r3 by simp
        then show ?thesis
          using i3 by (rule "1.IH" [OF p1 [symmetric] r1 p2 [symmetric] r2 p3 [symmetric] r3])
      qed
    qed
  qed
next
  case (2 c)
  then show ?case by simp
next
  case (3 submodule_data rest c)
  obtain r1 c1 where p1: "process_module submodule_data c = (r1, c1)"
    by (cases "process_module submodule_data c")
  note i1 = "3.IH"(1) [OF p1 "3.prems"(2)]
  show ?case
  proof (cases r1)
    case (Inl e)
    with "3.prems"(1) p1 i1 show ?thesis by simp
  next
    case (Inr u)
    with "3.prems"(1) p1 have "process_submodules rest c1 = (r, c')" by simp
    then show ?thesis
      using i1 by (rule "3.IH"(2) [OF p1 [symmetric] Inr])
  qed
qed

lemma schema_consistent:
  "fts_consistent (new_database\<lparr>tables_exist := True\<rparr>) \<and>
   primary_keys_unique (new_database\<lparr>tables_exist := True\<rparr>)"
  by (simp add: fts_consistent_def primary_keys_unique_def new_database_def)

lemma create_consistent:
  assumes "create json_data c fs = (r, c', fs')"
  shows "\<exists>db. fs' (db_path c) = Some db \<and> fts_consistent db \<and> primary_keys_unique db"
proof -
  let ?c2 = "c\<lparr>conn := new_database\<lparr>tables_exist := True\<rparr>\<rparr>"
  obtain r1 c1 where p: "process_module json_data ?c2 = (r1, c1)"
    by (cases "process_module json_data ?c2")
  have i: "fts_consistent (conn c1) \<and> primary_keys_unique (conn c1)"
    using process_module_inv(1) [OF p] schema_consistent by simp
  have d: "db_path c1 = db_path c"
    using process_module_db_path(1) [OF p] by simp
  show ?thesis
  proof (cases r1)
    case (Inl e)
    with assms p schema_consistent show ?thesis
      by (auto simp: create_result Let_def)
  next
    case (Inr u)
    with assms p i d show ?thesis
      by (auto simp: create_result Let_def commit_def)
  qed
qed

subsection \<open>The claim about the shadow indexes\<close>

text \<open>
  Plain statements keep the indexes consistent: from a database whose indexes are
  consistent (the empty schema is one, the database \<open>create\<close> leaves another), after
  any sequence of plain insert, delete and update statements, accepted or rejected, each
  index holds exactly one mirrored entry per row of its table; a search returns exactly
  the rows in which the token occurs, a class inserted with a docstring that contains a
  token is found by a search for it, and a class deleted is not returned.
\<close>

lemma statements_keep_indexes:
  assumes "list_all plain ss" and "fts_consistent db" and "primary_keys_unique db"
  shows "fts_consistent (run ss db) \<and>
         (\<forall>t. set (search_classes tok t (run ss db)) =
                {c \<in> set (classes (run ss db)). classes_fts_match tok t (class_fts_entry c)}) \<and>
         (\<forall>t. set (search_functions tok t (run ss db)) =
                {f \<in> set (functions_tbl (run ss db)).
                   functions_fts_match tok t (function_fts_entry f)}) \<and>
         (\<forall>r t db'. execute (InsertClass r) (run ss db) = Inr db' \<and>
                     t \<in> set (opt_tokens tok (c_docstring r))
                \<longrightarrow> r \<in> set (search_classes tok t db')) \<and>
         (\<forall>r t db'. execute (DeleteClass (c_id r)) (run ss db) = Inr db'
                \<longrightarrow> r \<notin> set (search_classes tok t db'))"
proof -
  let ?db = "run ss db"
  have inv: "fts_consistent ?db" "primary_keys_unique ?db"
    using run_inv [OF assms] by simp_all
  have ins: "r \<in> set (search_classes tok t db')"
    if "execute (InsertClass r) ?db = Inr db'" "t \<in> set (opt_tokens tok (c_docstring r))"
    for r t db'
  proof -
    have "plain (InsertClass r)"
      by simp
    with that(1) have "fts_consistent db' \<and> primary_keys_unique db'"
      using inv by (rule execute_inv)
    moreover have "r \<in> set (classes db')"
      using that(1) by (simp add: insert_class_row_member)
    moreover have "classes_fts_match tok t (class_fts_entry r)"
      using that(2) by (simp add: classes_fts_match_def class_fts_entry_def)
    ultimately show ?thesis
      by (simp add: search_classes_set)
  qed
  have del: "r \<notin> set (search_classes tok t db')"
    if "execute (DeleteClass (c_id r)) ?db = Inr db'" for r t db'
  proof -
    have "plain (DeleteClass (c_id r))"
      by simp
    with that have "fts_consistent db' \<and> primary_keys_unique db'"
      using inv by (rule execute_inv)
    moreover have "c_id r \<notin> c_id ` set (classes db')"
      using that inv(2) delete_class_row_absent [of "c_id r" ?db db'] by simp
    ultimately show ?thesis
      by (auto simp: search_classes_set)
  qed
  show ?thesis
    using inv ins del by (simp add: search_classes_set search_functions_set)
qed

text \<open>
  Claim C3 evaluated on the code.  The triggers do not cover a row that \<open>REPLACE\<close>
  conflict resolution removes.  On a database with the schema and one module, insert a
  class \<open>requests.A\<close> with the docstring \<open>alpha\<close>, then \<open>INSERT OR REPLACE\<close> a class of
  the same qualified name with the docstring \<open>beta\<close>: the table holds the second row
  only, the index holds the entries of both, so it is not consistent with the table,
  and it still matches \<open>alpha\<close>, at row id 1, which is no row of the table.
\<close>

theorem replace_leaves_stale_index_entry:
  "fts_consistent example_store \<and>
   classes (run [InsertClass example_alpha, InsertOrReplaceClass example_beta] example_store) =
     [example_beta] \<and>
   classes_fts (run [InsertClass example_alpha, InsertOrReplaceClass example_beta] example_store) =
     [class_fts_entry example_alpha, class_fts_entry example_beta] \<and>
   \<not> fts_consistent (run [InsertClass example_alpha, InsertOrReplaceClass example_beta] example_store) \<and>
   map cf_rowid (filter (classes_fts_match (split_at_spaces []) ''alpha'')
     (classes_fts (run [InsertClass example_alpha, InsertOrReplaceClass example_beta] example_store))) =
     [1]"
proof -
  let ?db = "run [InsertClass example_alpha, InsertOrReplaceClass example_beta] example_store"
  have s: "fts_consistent example_store"
    by (simp add: fts_consistent_def example_store_def new_database_def)
  have c: "classes ?db = [example_beta]"
    by code_simp
  have f: "classes_fts ?db = [class_fts_entry example_alpha, class_fts_entry example_beta]"
    by code_simp
  have n: "\<not> fts_consistent ?db"
  proof
    assume "fts_consistent ?db"
    then have "mset (classes_fts ?db) = mset (map class_fts_entry (classes ?db))"
      by (simp add: fts_consistent_def)
    then have "size (mset (classes_fts ?db)) = size (mset (map class_fts_entry (classes ?db)))"
      by (rule arg_cong)
    then show False
      by (simp only: c f size_mset length_map list.size)
  qed
  have m: "map cf_rowid (filter (classes_fts_match (split_at_spaces []) ''alpha'') (classes_fts ?db)) = [1]"
    by code_simp
  show ?thesis
    by (intro conjI s c f n m)
qed

section \<open>Properties of the command line\<close>

lemma divide_entities_empty:
  assumes "1 \<le> n"
  shows "fst (divide_entities rb sd ([] :: 'a list) n g) = Inr (replicate (nat n) [])"
proof -
  have "fst (random_shuffle rb ([] :: 'a list) (sd 42)) = []"
    by (simp add: random_shuffle_def)
  with divide_entities_groups [OF assms, of rb sd "[] :: 'a list" g]
  have "fst (divide_entities rb sd ([] :: 'a list) n g) = Inr (groups_of [] n)"
    by simp
  moreover have "groups_of ([] :: 'a list) n = replicate (nat n) []"
    by (simp add: groups_of_def map_replicate_const)
  ultimately show ?thesis
    by simp
qed

text \<open>
  Claim C8, as amended.  \<open>main\<close> returns 1 when the database file is missing, and
  writes nothing.  When the file is there and the export finds no row, \<open>main\<close> (for
  \<open>--groups\<close> at least 1) writes one empty group file per group and returns 0: an
  empty export is not an error of the command.
\<close>

theorem main_exit_code:
  "(fs (arg_database a) = None \<longrightarrow> main rb sd a fs g = (Inr 1, [], g)) \<and>
   (fs (arg_database a) = Some db \<and> tables_exist db \<and> classes db = [] \<and> functions_tbl db = [] \<and>
    1 \<le> arg_groups a \<longrightarrow>
      exit_code (fst (main rb sd a fs g)) = 0 \<and>
      fst (snd (main rb sd a fs g)) =
        map (\<lambda>i. (arg_output_dir a, i, [])) [1..<Suc (nat (arg_groups a))])"
proof (intro conjI impI)
  assume "fs (arg_database a) = None"
  then show "main rb sd a fs g = (Inr 1, [], g)"
    by (simp add: main_def)
next
  assume h: "fs (arg_database a) = Some db \<and> tables_exist db \<and> classes db = [] \<and>
    functions_tbl db = [] \<and> 1 \<le> arg_groups a"
  then have ex: "export_entities (arg_database a) fs = Inr []"
    by (simp add: export_entities_def connect_def)
  obtain r g' where d: "divide_entities rb sd ([] :: entity list) (arg_groups a) g = (r, g')"
    by (cases "divide_entities rb sd ([] :: entity list) (arg_groups a) g")
  have "fst (divide_entities rb sd ([] :: entity list) (arg_groups a) g) =
      Inr (replicate (nat (arg_groups a)) [])"
    using h by (simp add: divide_entities_empty)
  with d have r: "r = Inr (replicate (nat (arg_groups a)) [])"
    by simp
  have z: "zip [Suc 0..<Suc m] (replicate m ([] :: entity list)) =
      map (\<lambda>i. (i, [])) [Suc 0..<Suc m]" for m
    by (simp add: zip_replicate2 del: upt_Suc)
  from h ex d r have m: "main rb sd a fs g =
      (Inr 0, map (\<lambda>(i, group). (arg_output_dir a, i, group))
                (zip [1..<Suc (nat (arg_groups a))] (replicate (nat (arg_groups a)) [])), g')"
    by (simp add: main_def del: upt_Suc)
  then show "exit_code (fst (main rb sd a fs g)) = 0"
    by (simp add: exit_code_def)
  from m show "fst (snd (main rb sd a fs g)) =
        map (\<lambda>i. (arg_output_dir a, i, [])) [1..<Suc (nat (arg_groups a))]"
    by (simp add: z del: upt_Suc)
qed

theorem main_exit_code_witness:
  "Map.empty (arg_database example_args) = (None :: database option) \<and>
   main (\<lambda>n g. (g mod n, Suc g)) nat example_args Map.empty 0 = (Inr 1, [], 0) \<and>
   (Map.empty(''api.db'' \<mapsto> new_database\<lparr>tables_exist := True\<rparr>)) (arg_database example_args) =
     Some (new_database\<lparr>tables_exist := True\<rparr>) \<and>
   tables_exist (new_database\<lparr>tables_exist := True\<rparr>) \<and>
   classes (new_database\<lparr>tables_exist := True\<rparr>) = [] \<and>
   functions_tbl (new_database\<lparr>tables_exist := True\<rparr>) = [] \<and>
   1 \<le> arg_groups example_args \<and>
   exit_code (fst (main (\<lambda>n g. (g mod n, Suc g)) nat example_args
       (Map.empty(''api.db'' \<mapsto> new_database\<lparr>tables_exist := True\<rparr>)) 0)) = 0 \<and>
   fst (snd (main (\<lambda>n g. (g mod n, Suc g)) nat example_args
       (Map.empty(''api.db'' \<mapsto> new_database\<lparr>tables_exist := True\<rparr>)) 0)) =
     map (\<lambda>i. (arg_output_dir example_args, i, [])) [1..<Suc (nat (arg_groups example_args))]"
proof -
  have h1: "Map.empty (arg_database example_args) = (None :: database option)"
    by simp
  have k1: "(Map.empty(''api.db'' \<mapsto> new_database\<lparr>tables_exist := True\<rparr>)) (arg_database example_args) =
       Some (new_database\<lparr>tables_exist := True\<rparr>)"
    by (simp add: example_args_def)
  have k2: "tables_exist (new_database\<lparr>tables_exist := True\<rparr>)"
    by simp
  have k3: "classes (new_database\<lparr>tables_exist := True\<rparr>) = []"
    by (simp add: new_database_def)
  have k4: "functions_tbl (new_database\<lparr>tables_exist := True\<rparr>) = []"
    by (simp add: new_database_def)
  have k5: "1 \<le> arg_groups example_args"
    by (simp add: example_args_def)
  note miss = main_exit_code [where fs = Map.empty and a = example_args
      and rb = "\<lambda>n g. (g mod n, Suc g)" and sd = nat and g = 0, THEN conjunct1]
  note none = main_exit_code [where fs = "Map.empty(''api.db'' \<mapsto> new_database\<lparr>tables_exist := True\<rparr>)"
      and a = example_args and db = "new_database\<lparr>tables_exist := True\<rparr>"
      and rb = "\<lambda>n g. (g mod n, Suc g)" and sd = nat and g = 0, THEN conjunct2]
  have a: "main (\<lambda>n g. (g mod n, Suc g)) nat example_args Map.empty 0 = (Inr 1, [], 0)"
    by (rule mp [OF miss h1])
  have b: "exit_code (fst (main (\<lambda>n g. (g mod n, Suc g)) nat example_args
       (Map.empty(''api.db'' \<mapsto> new_database\<lparr>tables_exist := True\<rparr>)) 0)) = 0 \<and>
    fst (snd (main (\<lambda>n g. (g mod n, Suc g)) nat example_args
       (Map.empty(''api.db'' \<mapsto> new_database\<lparr>tables_exist := True\<rparr>)) 0)) =
     map (\<lambda>i. (arg_output_dir example_args, i, [])) [1..<Suc (nat (arg_groups example_args))]"
    by (rule mp [OF none]) (intro conjI k1 k2 k3 k4 k5)
  show ?thesis
    by (intro conjI h1 a k1 k2 k3 k4 k5 b [THEN conjunct1] b [THEN conjunct2])
qed

text \<open>
  The claim as first stated has the command exit with 1 when the export finds no row.
  On a database that holds the schema and no row, \<open>main\<close> returns 0.
\<close>

theorem main_empty_export_counterexample:
  "export_entities ''api.db'' (Map.empty(''api.db'' \<mapsto> new_database\<lparr>tables_exist := True\<rparr>)) = Inr [] \<and>
   exit_code (fst (main (\<lambda>n g. (g mod n, Suc g)) nat example_args
       (Map.empty(''api.db'' \<mapsto> new_database\<lparr>tables_exist := True\<rparr>)) 0)) = 0"
  by code_simp

end
